theory Spec2Isabelle
  imports Main "HOL-Library.Sublist"
begin

section \<open>Python built-ins used by the sources\<close>

text \<open>
  \<^verbatim>\<open>str.replace(old, new)\<close>: scans left to right and replaces every
  non-overlapping occurrence of \<open>old\<close>. For an empty \<open>old\<close> Python inserts
  \<open>new\<close> before every character and at the end.
\<close>

function replace_scan :: "string \<Rightarrow> string \<Rightarrow> string \<Rightarrow> string" where
  "replace_scan old new [] = []"
| "replace_scan old new (c # cs) =
     (if old \<noteq> [] \<and> take (length old) (c # cs) = old
      then new @ replace_scan old new (drop (length old) (c # cs))
      else c # replace_scan old new cs)"
  by pat_completeness auto
termination
  by (relation "measure (\<lambda>(old, new, s). length s)") auto

definition str_replace :: "string \<Rightarrow> string \<Rightarrow> string \<Rightarrow> string" where
  "str_replace s old new =
     (if old = [] then new @ concat (map (\<lambda>c. c # new) s) else replace_scan old new s)"

text \<open>\<^verbatim>\<open>str(n)\<close> for a Python int: decimal digits, with a minus sign when negative.\<close>

function show_nat :: "nat \<Rightarrow> string" where
  "show_nat n =
     (if n < 10 then [char_of (48 + n)]
      else show_nat (n div 10) @ [char_of (48 + n mod 10)])"
  by pat_completeness auto
termination
  by (relation "measure id") auto

declare show_nat.simps [simp del]

definition show_int :: "int \<Rightarrow> string" where
  "show_int i = (if i < 0 then CHR ''-'' # show_nat (nat (- i)) else show_nat (nat i))"

text \<open>
  The slice \<^verbatim>\<open>xs[:n]\<close>: the first \<open>n\<close> items, and for a negative \<open>n\<close> all
  but the last \<open>-n\<close> items.
\<close>

definition py_take :: "int \<Rightarrow> 'a list \<Rightarrow> 'a list" where
  "py_take n xs = (if 0 \<le> n then take (nat n) xs else take (length xs - nat (- n)) xs)"

text \<open>\<^verbatim>\<open>s.split(sep)\<close> for a one-character separator.\<close>

fun split_on :: "char \<Rightarrow> string \<Rightarrow> string list" where
  "split_on sep [] = [[]]"
| "split_on sep (c # cs) =
     (if c = sep then [] # split_on sep cs
      else (case split_on sep cs of [] \<Rightarrow> [[c]] | p # ps \<Rightarrow> (c # p) # ps))"

section \<open>JSON values as Python holds them\<close>

text \<open>
  What \<^verbatim>\<open>json.loads\<close> builds: \<^verbatim>\<open>None\<close>, \<^verbatim>\<open>bool\<close>, \<^verbatim>\<open>int\<close>,
  \<^verbatim>\<open>float\<close>, \<^verbatim>\<open>str\<close>, \<^verbatim>\<open>list\<close> and \<^verbatim>\<open>dict\<close> (insertion ordered,
  string keys). The sources only ever print a float and ask for its type, so a float is
  carried by the text \<^verbatim>\<open>str\<close> gives for it.
\<close>

datatype scalar = SNull | SBool bool | SInt int | SFloat string | SStr string

datatype json = Scalar scalar | Arr "json list" | Obj "(string \<times> json) list"

abbreviation JNull :: json where "JNull \<equiv> Scalar SNull"
abbreviation JBool :: "bool \<Rightarrow> json" where "JBool b \<equiv> Scalar (SBool b)"
abbreviation JInt :: "int \<Rightarrow> json" where "JInt i \<equiv> Scalar (SInt i)"
abbreviation JStr :: "string \<Rightarrow> json" where "JStr s \<equiv> Scalar (SStr s)"

fun py_str :: "scalar \<Rightarrow> string" where
  "py_str SNull = ''None''"
| "py_str (SBool b) = (if b then ''True'' else ''False'')"
| "py_str (SInt i) = show_int i"
| "py_str (SFloat t) = t"
| "py_str (SStr s) = s"

fun scalar_type_name :: "scalar \<Rightarrow> string" where
  "scalar_type_name SNull = ''NoneType''"
| "scalar_type_name (SBool b) = ''bool''"
| "scalar_type_name (SInt i) = ''int''"
| "scalar_type_name (SFloat t) = ''float''"
| "scalar_type_name (SStr s) = ''str''"

fun type_name :: "json \<Rightarrow> string" where
  "type_name (Scalar s) = scalar_type_name s"
| "type_name (Arr xs) = ''list''"
| "type_name (Obj kvs) = ''dict''"

fun is_compound :: "json \<Rightarrow> bool" where
  "is_compound (Scalar s) = False"
| "is_compound (Arr xs) = True"
| "is_compound (Obj kvs) = True"

text \<open>\<^verbatim>\<open>d[k] = v\<close>: an existing key keeps its position, a new key goes last.\<close>

fun dict_set :: "(string \<times> 'v) list \<Rightarrow> string \<Rightarrow> 'v \<Rightarrow> (string \<times> 'v) list" where
  "dict_set [] k v = [(k, v)]"
| "dict_set ((k', v') # kvs) k v =
     (if k' = k then (k', v) # kvs else (k', v') # dict_set kvs k v)"

text \<open>
  Exceptions. The three classes of the packages \<^verbatim>\<open>jsonpointer\<close> and \<^verbatim>\<open>jsonpatch\<close>
  that the sources catch by name (\<^verbatim>\<open>JsonPatchConflict\<close> is a subclass of
  \<^verbatim>\<open>JsonPatchException\<close>), and any other Python exception, carried by its class name.
  Each carries its message.
\<close>

datatype exn =
    JsonPointerException string
  | JsonPatchConflict string
  | JsonPatchException string
  | PyError string string

section \<open>Pointer codec (tools/json\_pointer.py)\<close>

definition decode_pointer_token :: "string \<Rightarrow> string" where
  "decode_pointer_token token = str_replace (str_replace token ''~1'' ''/'') ''~0'' ''~''"

definition encode_pointer_token :: "string \<Rightarrow> string" where
  "encode_pointer_token token = str_replace (str_replace token ''~'' ''~0'') ''/'' ''~1''"

text \<open>The escape of one character, and its form after the first decoding pass.\<close>

definition enc_char :: "char \<Rightarrow> string" where
  "enc_char c = (if c = CHR ''~'' then ''~0'' else if c = CHR ''/'' then ''~1'' else [c])"

definition tilde_char :: "char \<Rightarrow> string" where
  "tilde_char c = (if c = CHR ''~'' then ''~0'' else [c])"

section \<open>The third-party packages jsonpointer and jsonpatch\<close>

text \<open>
  What \<^verbatim>\<open>jsonpointer.resolve_pointer\<close> returns: a value of the document, or, when
  the last token is \<^verbatim>\<open>-\<close> and addresses a sequence, an object of the package's class
  \<^verbatim>\<open>EndOfList\<close> that holds that sequence. The marker is neither a dictionary, a list
  nor a string.
\<close>

datatype resolved = Value json | EndOfList json

text \<open>
  The tools call two packages that are not part of the repository. Every definition
  translated from the repository takes them as a parameter, so that what is proved of
  the repository's code holds whatever the packages compute:
  \<^item> \<open>resolve_pointer L doc path\<close> is \<^verbatim>\<open>jsonpointer.resolve_pointer(doc, path)\<close>;
  \<^item> \<open>end_of_list_str L xs\<close> is \<^verbatim>\<open>str(m)\<close> for the marker \<open>m\<close> holding \<open>xs\<close>, the
    text the package's \<^verbatim>\<open>EndOfList.__repr__\<close> builds;
  \<^item> \<open>patch_apply L doc patches\<close> is \<^verbatim>\<open>jsonpatch.JsonPatch(patches).apply(doc)\<close>
    seen as a function of the value of \<open>doc\<close>: the patched value, or the exception.
\<close>

record library =
  resolve_pointer :: "json \<Rightarrow> string \<Rightarrow> exn + resolved"
  end_of_list_str :: "json \<Rightarrow> string"
  patch_apply :: "json \<Rightarrow> json list \<Rightarrow> exn + json"

subsection \<open>A reference evaluator for the two packages\<close>

text \<open>
  One instance of \<open>library\<close>, used to run the tools on concrete inputs. It follows
  RFC 6901 and RFC 6902 and the exceptions the Python packages raise.
\<close>

fun has_invalid_escape :: "string \<Rightarrow> bool" where
  "has_invalid_escape [] = False"
| "has_invalid_escape [c] = (c = CHR ''~'')"
| "has_invalid_escape (c # d # cs) =
     ((c = CHR ''~'' \<and> d \<noteq> CHR ''0'' \<and> d \<noteq> CHR ''1'') \<or> has_invalid_escape (d # cs))"

definition pointer_parts :: "string \<Rightarrow> exn + string list" where
  "pointer_parts pointer =
     (if has_invalid_escape pointer then Inl (JsonPointerException ''Found invalid escape'')
      else (case split_on (CHR ''/'') pointer of
              [] \<Rightarrow> Inl (JsonPointerException ''Location must start with /'')
            | p # ps \<Rightarrow>
                if p \<noteq> [] then Inl (JsonPointerException ''Location must start with /'')
                else Inr (map decode_pointer_token ps)))"

definition is_digit :: "char \<Rightarrow> bool" where
  "is_digit c = (48 \<le> (of_char c :: nat) \<and> (of_char c :: nat) \<le> 57)"

definition is_array_index :: "string \<Rightarrow> bool" where
  "is_array_index s = (s = ''0'' \<or> (s \<noteq> [] \<and> list_all is_digit s \<and> hd s \<noteq> CHR ''0''))"

definition parse_nat :: "string \<Rightarrow> nat" where
  "parse_nat s = foldl (\<lambda>n c. 10 * n + (of_char c - 48)) 0 s"

text \<open>
  \<^verbatim>\<open>int(part)\<close> on a token of decimal digits. The interpreter refuses a text of more
  than \<^verbatim>\<open>sys.int_info.default_max_str_digits\<close> = 4300 digits with \<^verbatim>\<open>ValueError\<close>.
\<close>

definition py_int :: "string \<Rightarrow> exn + nat" where
  "py_int s =
     (if length s > 4300
      then Inl (PyError ''ValueError'' ''Exceeds the limit (4300 digits) for integer string conversion'')
      else Inr (parse_nat s))"

datatype part = Key string | Idx nat | Dash

definition sequence_part :: "string \<Rightarrow> exn + part" where
  "sequence_part p =
     (if p = ''-'' then Inr Dash
      else if is_array_index p
        then (case py_int p of Inl e \<Rightarrow> Inl e | Inr n \<Rightarrow> Inr (Idx n))
      else Inl (JsonPointerException (p @ '' is not a valid sequence index'')))"

fun get_part :: "json \<Rightarrow> string \<Rightarrow> exn + part" where
  "get_part (Obj kvs) p = Inr (Key p)"
| "get_part (Arr xs) p = sequence_part p"
| "get_part (Scalar (SStr s)) p = sequence_part p"
| "get_part (Scalar v) p = Inl (JsonPointerException ''Document does not support indexing'')"

text \<open>
  \<^verbatim>\<open>JsonPointer.walk\<close>: one step from a value. On a sequence the token \<^verbatim>\<open>-\<close> gives
  the end-of-list marker holding the sequence. The marker supports no indexing, so a
  step from it is a \<^verbatim>\<open>JsonPointerException\<close>.
\<close>

fun walk :: "json \<Rightarrow> string \<Rightarrow> exn + resolved" where
  "walk doc p =
     (case get_part doc p of
        Inl e \<Rightarrow> Inl e
      | Inr Dash \<Rightarrow> Inr (EndOfList doc)
      | Inr (Key k) \<Rightarrow>
          (case doc of
             Obj kvs \<Rightarrow>
               (case map_of kvs k of
                  Some v \<Rightarrow> Inr (Value v)
                | None \<Rightarrow> Inl (JsonPointerException (''member '' @ k @ '' not found'')))
           | _ \<Rightarrow> Inl (JsonPointerException ''Document does not support indexing''))
      | Inr (Idx i) \<Rightarrow>
          (case doc of
             Arr xs \<Rightarrow>
               if i < length xs then Inr (Value (xs ! i))
               else Inl (JsonPointerException (''index '' @ p @ '' is out of bounds''))
           | Scalar (SStr s) \<Rightarrow>
               if i < length s then Inr (Value (JStr [s ! i]))
               else Inl (JsonPointerException (''index '' @ p @ '' is out of bounds''))
           | _ \<Rightarrow> Inl (JsonPointerException ''Document does not support indexing'')))"

fun walk_from :: "resolved \<Rightarrow> string \<Rightarrow> exn + resolved" where
  "walk_from (Value doc) p = walk doc p"
| "walk_from (EndOfList xs) p = Inl (JsonPointerException ''Document does not support indexing'')"

fun resolve_from :: "resolved \<Rightarrow> string list \<Rightarrow> exn + resolved" where
  "resolve_from r [] = Inr r"
| "resolve_from r (p # ps) =
     (case walk_from r p of Inl e \<Rightarrow> Inl e | Inr r' \<Rightarrow> resolve_from r' ps)"

definition ref_resolve_pointer :: "json \<Rightarrow> string \<Rightarrow> exn + resolved" where
  "ref_resolve_pointer doc pointer =
     (case pointer_parts pointer of
        Inl e \<Rightarrow> Inl e
      | Inr ps \<Rightarrow> resolve_from (Value doc) ps)"

text \<open>
  Inside \<^verbatim>\<open>jsonpatch\<close> a pointer is walked to the container of the addressed member,
  and the last token is then read against that container (\<^verbatim>\<open>JsonPointer.to_last\<close>).
  A marker met on the way fails at the next token, as above.
\<close>

definition walk_value :: "json \<Rightarrow> string \<Rightarrow> exn + json" where
  "walk_value doc p =
     (case walk doc p of
        Inl e \<Rightarrow> Inl e
      | Inr (Value d) \<Rightarrow> Inr d
      | Inr (EndOfList xs) \<Rightarrow> Inl (JsonPointerException ''Document does not support indexing''))"

fun resolve_parts :: "json \<Rightarrow> string list \<Rightarrow> exn + json" where
  "resolve_parts doc [] = Inr doc"
| "resolve_parts doc (p # ps) =
     (case walk_value doc p of Inl e \<Rightarrow> Inl e | Inr d \<Rightarrow> resolve_parts d ps)"

text \<open>
  The text of the marker, \<^verbatim>\<open>EndOfList(\<close>\<open>repr\<close> of the sequence\<^verbatim>\<open>)\<close>, with
  Python's \<^verbatim>\<open>repr\<close> of the values \<^verbatim>\<open>json.loads\<close> builds. A string is quoted with
  \<^verbatim>\<open>'\<close>, or with \<^verbatim>\<open>"\<close> when it holds \<^verbatim>\<open>'\<close> and no \<^verbatim>\<open>"\<close>; the quote and the
  backslash are escaped, and so is every character that is not printable.
\<close>

definition hex_digit :: "nat \<Rightarrow> char" where
  "hex_digit n = (if n < 10 then char_of (48 + n) else char_of (87 + n))"

definition repr_char :: "char \<Rightarrow> char \<Rightarrow> string" where
  "repr_char quote c =
     (let n = (of_char c :: nat) in
      if c = quote \<or> c = CHR 0x5C then [CHR 0x5C, c]
      else if c = CHR 0x09 then [CHR 0x5C, CHR ''t'']
      else if c = CHR 0x0A then [CHR 0x5C, CHR ''n'']
      else if c = CHR 0x0D then [CHR 0x5C, CHR ''r'']
      else if n < 32 \<or> n = 127 \<or> (128 \<le> n \<and> n \<le> 160) \<or> n = 173
        then [CHR 0x5C, CHR ''x'', hex_digit (n div 16), hex_digit (n mod 16)]
      else [c])"

definition repr_str :: "string \<Rightarrow> string" where
  "repr_str s =
     (let quote = (if CHR 0x27 \<in> set s \<and> CHR 0x22 \<notin> set s then CHR 0x22 else CHR 0x27)
      in quote # concat (map (repr_char quote) s) @ [quote])"

fun join_comma :: "string list \<Rightarrow> string" where
  "join_comma [] = []"
| "join_comma [x] = x"
| "join_comma (x # y # ys) = x @ '', '' @ join_comma (y # ys)"

primrec repr_scalar :: "scalar \<Rightarrow> string" where
  "repr_scalar SNull = ''None''"
| "repr_scalar (SBool b) = (if b then ''True'' else ''False'')"
| "repr_scalar (SInt i) = show_int i"
| "repr_scalar (SFloat t) = t"
| "repr_scalar (SStr s) = repr_str s"

primrec py_repr :: "json \<Rightarrow> string"
  and repr_items :: "json list \<Rightarrow> string list"
  and repr_members :: "(string \<times> json) list \<Rightarrow> string list"
  and repr_member :: "string \<times> json \<Rightarrow> string" where
  "py_repr (Scalar v) = repr_scalar v"
| "py_repr (Arr xs) = ''['' @ join_comma (repr_items xs) @ '']''"
| "py_repr (Obj kvs) = ''{'' @ join_comma (repr_members kvs) @ ''}''"
| "repr_items [] = []"
| "repr_items (x # xs) = py_repr x # repr_items xs"
| "repr_members [] = []"
| "repr_members (kv # kvs) = repr_member kv # repr_members kvs"
| "repr_member (k, v) = repr_str k @ '': '' @ py_repr v"

definition ref_end_of_list_str :: "json \<Rightarrow> string" where
  "ref_end_of_list_str xs = ''EndOfList('' @ py_repr xs @ '')''"

text \<open>
  \<^verbatim>\<open>jsonpatch\<close>: an operation edits the container that holds the addressed member.
  \<open>modify_at f doc parts\<close> walks to that container, lets \<open>f\<close> edit it under the last
  token, and puts the edited containers back on the way up.
\<close>

fun put_child :: "json \<Rightarrow> string \<Rightarrow> json \<Rightarrow> json" where
  "put_child (Obj kvs) p c = Obj (dict_set kvs p c)"
| "put_child (Arr xs) p c = Arr (xs[parse_nat p := c])"
| "put_child (Scalar v) p c = Scalar v"

fun modify_at :: "(json \<Rightarrow> string \<Rightarrow> exn + json) \<Rightarrow> json \<Rightarrow> string list \<Rightarrow> exn + json" where
  "modify_at f doc [] = Inr doc"
| "modify_at f doc [p] = f doc p"
| "modify_at f doc (p # q # ps) =
     (case walk_value doc p of
        Inl e \<Rightarrow> Inl e
      | Inr child \<Rightarrow>
          (case modify_at f child (q # ps) of
             Inl e \<Rightarrow> Inl e
           | Inr child' \<Rightarrow> Inr (put_child doc p child')))"

definition add_child :: "json \<Rightarrow> json \<Rightarrow> string \<Rightarrow> exn + json" where
  "add_child v subobj p =
     (case get_part subobj p of
        Inl e \<Rightarrow> Inl e
      | Inr part \<Rightarrow>
          (case subobj of
             Arr xs \<Rightarrow>
               (case part of
                  Dash \<Rightarrow> Inr (Arr (xs @ [v]))
                | Idx n \<Rightarrow>
                    if n > length xs then Inl (JsonPatchConflict ''cannot insert outside of list'')
                    else Inr (Arr (take n xs @ v # drop n xs))
                | Key k \<Rightarrow> Inl (JsonPatchConflict ''unable to fully resolve json pointer''))
           | Obj kvs \<Rightarrow> Inr (Obj (dict_set kvs p v))
           | Scalar x \<Rightarrow> Inl (JsonPatchConflict ''unable to fully resolve json pointer'')))"

definition patch_add :: "json \<Rightarrow> json \<Rightarrow> string list \<Rightarrow> exn + json" where
  "patch_add v doc parts =
     (if parts = [] then
        (case doc of
           Obj kvs \<Rightarrow> Inr v
         | Arr xs \<Rightarrow> Inl (PyError ''TypeError'' ''> not supported between NoneType and int'')
         | Scalar x \<Rightarrow> Inl (PyError ''TypeError'' ''invalid document type''))
      else modify_at (add_child v) doc parts)"

definition remove_child :: "json \<Rightarrow> string \<Rightarrow> exn + json" where
  "remove_child subobj p =
     (case get_part subobj p of
        Inl e \<Rightarrow> Inl e
      | Inr part \<Rightarrow>
          (case subobj of
             Arr xs \<Rightarrow>
               (case part of
                  Idx n \<Rightarrow>
                    if n < length xs then Inr (Arr (take n xs @ drop (Suc n) xs))
                    else Inl (JsonPatchConflict ''cannot remove a non-existent object'')
                | _ \<Rightarrow> Inl (JsonPointerException ''invalid array index''))
           | Obj kvs \<Rightarrow>
               if map_of kvs p \<noteq> None then Inr (Obj (filter (\<lambda>kv. fst kv \<noteq> p) kvs))
               else Inl (JsonPatchConflict ''cannot remove a non-existent object'')
           | Scalar x \<Rightarrow>
               (case part of
                  Idx n \<Rightarrow> Inl (PyError ''TypeError'' ''object does not support item deletion'')
                | _ \<Rightarrow> Inl (JsonPointerException ''invalid array index''))))"

definition patch_remove :: "json \<Rightarrow> string list \<Rightarrow> exn + json" where
  "patch_remove doc parts =
     (if parts = [] then
        (case doc of
           Obj kvs \<Rightarrow> Inl (JsonPatchConflict ''cannot remove a non-existent object'')
         | Arr xs \<Rightarrow> Inl (JsonPointerException ''invalid array index'')
         | Scalar (SStr x) \<Rightarrow> Inl (JsonPointerException ''invalid array index'')
         | Scalar x \<Rightarrow> Inl (PyError ''TypeError'' ''object does not support item deletion''))
      else modify_at remove_child doc parts)"

definition replace_child :: "json \<Rightarrow> json \<Rightarrow> string \<Rightarrow> exn + json" where
  "replace_child v subobj p =
     (case get_part subobj p of
        Inl e \<Rightarrow> Inl e
      | Inr part \<Rightarrow>
          if p = ''-'' then Inl (JsonPatchException ''path with - cannot be applied to replace'')
          else
          (case subobj of
             Arr xs \<Rightarrow>
               (case part of
                  Idx n \<Rightarrow>
                    if n \<ge> length xs then Inl (JsonPatchConflict ''cannot replace outside of list'')
                    else Inr (Arr (xs[n := v]))
                | _ \<Rightarrow> Inl (JsonPatchConflict ''cannot replace outside of list''))
           | Obj kvs \<Rightarrow>
               if map_of kvs p \<noteq> None then Inr (Obj (dict_set kvs p v))
               else Inl (JsonPatchConflict ''cannot replace a non-existent object'')
           | Scalar x \<Rightarrow> Inl (JsonPatchConflict ''unable to fully resolve json pointer'')))"

definition patch_replace :: "json \<Rightarrow> json \<Rightarrow> string list \<Rightarrow> exn + json" where
  "patch_replace v doc parts = (if parts = [] then Inr v else modify_at (replace_child v) doc parts)"

text \<open>The member a \<^verbatim>\<open>from\<close> pointer addresses, for \<^verbatim>\<open>move\<close> and \<^verbatim>\<open>copy\<close>.\<close>

definition fetch_child :: "json \<Rightarrow> string \<Rightarrow> exn + json" where
  "fetch_child subobj p =
     (case get_part subobj p of
        Inl e \<Rightarrow> Inl e
      | Inr part \<Rightarrow>
          (case subobj of
             Arr xs \<Rightarrow>
               (case part of
                  Idx n \<Rightarrow> if n < length xs then Inr (xs ! n)
                            else Inl (JsonPatchConflict ''list index out of range'')
                | _ \<Rightarrow> Inl (PyError ''TypeError'' ''list indices must be integers''))
           | Obj kvs \<Rightarrow>
               (case map_of kvs p of
                  Some v \<Rightarrow> Inr v
                | None \<Rightarrow> Inl (JsonPatchConflict p))
           | Scalar (SStr x) \<Rightarrow>
               (case part of
                  Idx n \<Rightarrow> if n < length x then Inr (JStr [x ! n])
                            else Inl (JsonPatchConflict ''string index out of range'')
                | _ \<Rightarrow> Inl (PyError ''TypeError'' ''string indices must be integers''))
           | Scalar x \<Rightarrow> Inl (JsonPointerException ''Document does not support indexing'')))"

definition patch_fetch :: "json \<Rightarrow> string list \<Rightarrow> exn + json" where
  "patch_fetch doc parts =
     (if parts = [] then
        (case doc of
           Obj kvs \<Rightarrow> Inl (JsonPatchConflict ''None'')
         | _ \<Rightarrow> Inl (PyError ''TypeError'' ''indices must be integers''))
      else (case resolve_parts doc (butlast parts) of
              Inl e \<Rightarrow> Inl e
            | Inr subobj \<Rightarrow> fetch_child subobj (last parts)))"

definition patch_move :: "json \<Rightarrow> string list \<Rightarrow> string list \<Rightarrow> exn + json" where
  "patch_move doc from_parts parts =
     (case patch_fetch doc from_parts of
        Inl e \<Rightarrow> Inl e
      | Inr v \<Rightarrow>
          if parts = from_parts then Inr doc
          else if (case resolve_parts doc (butlast from_parts) of Inr (Obj kvs) \<Rightarrow> True | _ \<Rightarrow> False)
                  \<and> take (length from_parts) parts = from_parts
          then Inl (JsonPatchConflict ''Cannot move values into their own children'')
          else (case patch_remove doc from_parts of
                  Inl e \<Rightarrow> Inl e
                | Inr doc' \<Rightarrow> patch_add v doc' parts))"

definition patch_copy :: "json \<Rightarrow> string list \<Rightarrow> string list \<Rightarrow> exn + json" where
  "patch_copy doc from_parts parts =
     (case patch_fetch doc from_parts of
        Inl e \<Rightarrow> Inl e
      | Inr v \<Rightarrow> patch_add v doc parts)"

text \<open>
  Building \<^verbatim>\<open>JsonPatch(patches)\<close> checks every operation before any is applied: it
  must be a dictionary with a known \<^verbatim>\<open>op\<close> and a \<^verbatim>\<open>path\<close> that parses as a pointer.
  The \<^verbatim>\<open>test\<close> operation is not evaluated here: \<^verbatim>\<open>apply_patches\<close> never passes it on.
\<close>

definition construct_op :: "json \<Rightarrow> exn + (string \<times> string list \<times> (string \<times> json) list)" where
  "construct_op operation =
     (case operation of
        Obj kvs \<Rightarrow>
          (case map_of kvs ''op'' of
             None \<Rightarrow> Inl (JsonPatchException ''Operation does not contain op member'')
           | Some (Scalar (SStr op)) \<Rightarrow>
               if op \<notin> {''add'', ''remove'', ''replace'', ''move'', ''copy''}
               then Inl (JsonPatchException (''Unknown operation '' @ op))
               else (case map_of kvs ''path'' of
                       None \<Rightarrow> Inl (JsonPatchException ''Operation must have a path member'')
                     | Some (Scalar (SStr path)) \<Rightarrow>
                         (case pointer_parts path of
                            Inl e \<Rightarrow> Inl e
                          | Inr parts \<Rightarrow> Inr (op, parts, kvs))
                     | Some other \<Rightarrow> Inl (JsonPatchException ''Invalid path''))
           | Some other \<Rightarrow> Inl (JsonPatchException ''Operation op must be a string''))
      | Arr xs \<Rightarrow> Inl (JsonPatchException ''Operation does not contain op member'')
      | Scalar (SStr x) \<Rightarrow> Inl (JsonPatchException ''Document is expected to be sequence of operations'')
      | Scalar x \<Rightarrow> Inl (PyError ''TypeError'' ''argument is not iterable''))"

fun construct_all ::
  "json list \<Rightarrow> exn + (string \<times> string list \<times> (string \<times> json) list) list" where
  "construct_all [] = Inr []"
| "construct_all (operation # rest) =
     (case construct_op operation of
        Inl e \<Rightarrow> Inl e
      | Inr x \<Rightarrow> (case construct_all rest of Inl e \<Rightarrow> Inl e | Inr xs \<Rightarrow> Inr (x # xs)))"

definition from_parts_of :: "(string \<times> json) list \<Rightarrow> exn + string list" where
  "from_parts_of kvs =
     (case map_of kvs ''from'' of
        None \<Rightarrow> Inl (JsonPatchException ''The operation does not contain a from member'')
      | Some (Scalar (SStr f)) \<Rightarrow> pointer_parts f
      | Some other \<Rightarrow> Inl (PyError ''TypeError'' ''expected string or bytes-like object''))"

definition apply_op :: "json \<Rightarrow> string \<times> string list \<times> (string \<times> json) list \<Rightarrow> exn + json" where
  "apply_op doc x =
     (case x of (op, parts, kvs) \<Rightarrow>
        if op = ''add'' then
          (case map_of kvs ''value'' of
             None \<Rightarrow> Inl (JsonPatchException ''The operation does not contain a value member'')
           | Some v \<Rightarrow> patch_add v doc parts)
        else if op = ''remove'' then patch_remove doc parts
        else if op = ''replace'' then
          (case map_of kvs ''value'' of
             None \<Rightarrow> Inl (JsonPatchException ''The operation does not contain a value member'')
           | Some v \<Rightarrow> patch_replace v doc parts)
        else if op = ''move'' then
          (case from_parts_of kvs of Inl e \<Rightarrow> Inl e | Inr fp \<Rightarrow> patch_move doc fp parts)
        else
          (case from_parts_of kvs of Inl e \<Rightarrow> Inl e | Inr fp \<Rightarrow> patch_copy doc fp parts))"

fun apply_ops :: "json \<Rightarrow> (string \<times> string list \<times> (string \<times> json) list) list \<Rightarrow> exn + json" where
  "apply_ops doc [] = Inr doc"
| "apply_ops doc (x # xs) =
     (case apply_op doc x of Inl e \<Rightarrow> Inl e | Inr doc' \<Rightarrow> apply_ops doc' xs)"

definition ref_patch_apply :: "json \<Rightarrow> json list \<Rightarrow> exn + json" where
  "ref_patch_apply doc patches =
     (case construct_all patches of Inl e \<Rightarrow> Inl e | Inr ops \<Rightarrow> apply_ops doc ops)"

definition ref_library :: library where
  "ref_library =
     \<lparr>resolve_pointer = ref_resolve_pointer,
      end_of_list_str = ref_end_of_list_str,
      patch_apply = ref_patch_apply\<rparr>"

section \<open>Document query engine\<close>

subsection \<open>tools/inspect\_keys.py\<close>

text \<open>
  The result dictionaries, one constructor per shape:
  \<^verbatim>\<open>{found: False, error, path}\<close>, \<^verbatim>\<open>{found, path, type: "object", keys, count}\<close>,
  \<^verbatim>\<open>{found, path, type: "array", length}\<close> and \<^verbatim>\<open>{found, path, type, value}\<close>.
\<close>

datatype inspect_result =
    InspectNotFound string string
  | InspectObject string "string list" nat
  | InspectArray string nat
  | InspectScalar string string string

text \<open>
  The \<^verbatim>\<open>except\<close> clause names \<^verbatim>\<open>JsonPointerException\<close> only; any other exception
  of the resolver leaves the function (\<open>Inl\<close>). The last branch takes every value that
  is neither a dictionary nor a list, the end-of-list marker included:
  \<^verbatim>\<open>type(value).__name__\<close> and \<^verbatim>\<open>str(value)\<close>.
\<close>

definition inspect_keys :: "library \<Rightarrow> json \<Rightarrow> string \<Rightarrow> exn + inspect_result" where
  "inspect_keys L document path0 =
     (let path = (if path0 = [] then [] else path0);
          resolved = (if path = [] \<or> path = ''/'' then Inr (Value document)
                      else resolve_pointer L document path)
      in case resolved of
           Inl (JsonPointerException e) \<Rightarrow> Inr (InspectNotFound e path)
         | Inl other \<Rightarrow> Inl other
         | Inr (Value (Obj kvs)) \<Rightarrow>
             (let keys = map fst kvs in Inr (InspectObject path keys (length keys)))
         | Inr (Value (Arr xs)) \<Rightarrow> Inr (InspectArray path (length xs))
         | Inr (Value (Scalar v)) \<Rightarrow>
             (let type_name = scalar_type_name v;
                  str_value = py_str v;
                  str_value = (if length str_value > 100 then take 100 str_value @ ''...''
                               else str_value)
              in Inr (InspectScalar path type_name str_value))
         | Inr (EndOfList xs) \<Rightarrow>
             (let type_name = ''EndOfList'';
                  str_value = end_of_list_str L xs;
                  str_value = (if length str_value > 100 then take 100 str_value @ ''...''
                               else str_value)
              in Inr (InspectScalar path type_name str_value)))"

subsection \<open>tools/read\_value.py\<close>

function (sequential) truncate_value ::
  "int \<Rightarrow> int \<Rightarrow> int \<Rightarrow> int \<Rightarrow> int \<Rightarrow> json \<Rightarrow> json" where
  "truncate_value max_string_length max_depth max_array_items max_object_keys current_depth (Obj kvs) =
     (if current_depth \<ge> max_depth
      then JStr (''{...} ('' @ show_nat (length kvs) @ '' keys)'')
      else if int (length kvs) > max_object_keys
        then Obj (dict_set
                   (map (\<lambda>(k, x). (k, truncate_value max_string_length max_depth max_array_items
                                          max_object_keys (current_depth + 1) x))
                        (py_take max_object_keys kvs))
                   ''__truncated__''
                   (JStr (show_int (int (length kvs) - max_object_keys) @ '' more keys'')))
        else Obj (map (\<lambda>(k, x). (k, truncate_value max_string_length max_depth max_array_items
                                       max_object_keys (current_depth + 1) x)) kvs))"
| "truncate_value max_string_length max_depth max_array_items max_object_keys current_depth (Arr xs) =
     (if current_depth \<ge> max_depth
      then JStr (''[...] ('' @ show_nat (length xs) @ '' items)'')
      else if int (length xs) > max_array_items
        then Arr (map (truncate_value max_string_length max_depth max_array_items
                         max_object_keys (current_depth + 1))
                      (py_take max_array_items xs)
                  @ [JStr (''... ('' @ show_int (int (length xs) - max_array_items)
                           @ '' more items)'')])
        else Arr (map (truncate_value max_string_length max_depth max_array_items
                         max_object_keys (current_depth + 1)) xs))"
| "truncate_value max_string_length max_depth max_array_items max_object_keys current_depth
     (Scalar (SStr s)) =
     (if current_depth \<ge> max_depth
      then (if int (length s) > max_string_length
            then JStr (py_take max_string_length s @ ''...'') else JStr s)
      else (if int (length s) > max_string_length
            then JStr (py_take max_string_length s
                       @ ''... ('' @ show_nat (length s) @ '' chars total)'')
            else JStr s))"
| "truncate_value max_string_length max_depth max_array_items max_object_keys current_depth v = v"
  by pat_completeness auto

lemma set_py_take: "set (py_take n xs) \<subseteq> set xs"
  by (auto simp: py_take_def dest: in_set_takeD)

lemma size_obj_member: "(k, x) \<in> set kvs \<Longrightarrow> size x < size (Obj kvs)"
  by (induction kvs) auto

lemma size_arr_member: "x \<in> set xs \<Longrightarrow> size x < size (Arr xs)"
  by (induction xs) auto

termination truncate_value
proof (relation "measure (\<lambda>(msl, md, mai, mok, cd, v). size v)", goal_cases)
  case 1
  show ?case by simp
next
  case (2 msl md mai mok cd kvs z k x)
  then have "(k, x) \<in> set kvs" using set_py_take[of mok kvs] by auto
  then show ?case using size_obj_member by simp
next
  case (3 msl md mai mok cd kvs z k x)
  then have "(k, x) \<in> set kvs" by auto
  then show ?case using size_obj_member by simp
next
  case (4 msl md mai mok cd xs x)
  then have "x \<in> set xs" using set_py_take[of mai xs] by auto
  then show ?case using size_arr_member by simp
next
  case (5 msl md mai mok cd xs x)
  then show ?case using size_arr_member by simp
qed

text \<open>
  The result dictionaries \<^verbatim>\<open>{found: False, error, path}\<close> and
  \<^verbatim>\<open>{found: True, path, value, type}\<close>. The end-of-list marker is no dictionary,
  list or string, so \<^verbatim>\<open>_truncate_value\<close> hands it back as it is at every depth,
  with the sequence it holds.
\<close>

datatype read_result =
    ReadNotFound string string
  | ReadFound string resolved string

definition read_value ::
  "library \<Rightarrow> json \<Rightarrow> string \<Rightarrow> int \<Rightarrow> int \<Rightarrow> int \<Rightarrow> int \<Rightarrow> exn + read_result" where
  "read_value L document path max_string_length max_depth max_array_items max_object_keys =
     (case (if path = [] \<or> path = ''/'' then Inr (Value document)
            else resolve_pointer L document path) of
        Inl (JsonPointerException e) \<Rightarrow> Inr (ReadNotFound e path)
      | Inl other \<Rightarrow> Inl other
      | Inr (Value v) \<Rightarrow>
          Inr (ReadFound path
                 (Value (truncate_value max_string_length max_depth max_array_items
                           max_object_keys 0 v))
                 (type_name v))
      | Inr (EndOfList xs) \<Rightarrow> Inr (ReadFound path (EndOfList xs) ''EndOfList''))"



section \<open>Patch engine (tools/apply\_patches.py)\<close>

text \<open>
  Python objects have identity, and the claims about the patch engine are about which
  object is written. A store holds the document objects, a reference is an index into
  it, and a function that may allocate or write returns the store it leaves.

  \<^verbatim>\<open>JsonPatch(patches).apply(obj)\<close> is called with \<^verbatim>\<open>in_place\<close> at its default
  \<^verbatim>\<open>False\<close>; the sources never pass it. The package then patches a
  \<^verbatim>\<open>copy.deepcopy\<close> of \<open>obj\<close> and returns the copy: a new object on success, and on an
  exception the copy is unreachable and dropped.
\<close>

type_synonym store = "json list"

definition json_patch_apply ::
  "library \<Rightarrow> store \<Rightarrow> nat \<Rightarrow> json list \<Rightarrow> (exn + nat) \<times> store" where
  "json_patch_apply L st obj patches =
     (case patch_apply L (st ! obj) patches of
        Inl e \<Rightarrow> (Inl e, st)
      | Inr v \<Rightarrow> (Inr (length st), st @ [v]))"

text \<open>
  The error of a failed call: the constructor says which \<^verbatim>\<open>return\<close> built the
  message, \<open>InvalidOperation op i\<close> for
  \<^verbatim>\<open>Invalid operation '{op}' at index {i}. Supported: {valid_ops}\<close>, and the argument
  of the others is the text of the exception.
\<close>

datatype patch_error =
    InvalidOperation json nat
  | TestNotSupported
  | PatchConflict string
  | PatchError string
  | InvalidPath string
  | UnexpectedError string

text \<open>
  \<^verbatim>\<open>{success: True, document, applied_count}\<close>, with \<^verbatim>\<open>message\<close> when the list was
  empty, and \<^verbatim>\<open>{success: False, error, failed_at_index}\<close>. The document is a reference
  at this level and a value for a caller that only reads it.
\<close>

datatype 'd patch_result =
    PatchSuccess 'd nat "string option"
  | PatchFailure patch_error int

definition valid_ops :: "string set" where
  "valid_ops = {''add'', ''remove'', ''replace'', ''move'', ''copy''}"

text \<open>
  The validation loop. \<^verbatim>\<open>patch.get("op")\<close> needs a dictionary and gives \<^verbatim>\<open>None\<close>
  for a missing key; \<^verbatim>\<open>op not in valid_ops\<close> hashes \<open>op\<close>, which a list or a dictionary
  does not support. Both exceptions are raised outside the \<^verbatim>\<open>try\<close>.
\<close>

fun validate_ops :: "json list \<Rightarrow> nat \<Rightarrow> exn + (patch_error \<times> nat) option" where
  "validate_ops [] i = Inr None"
| "validate_ops (patch # rest) i =
     (case patch of
        Obj kvs \<Rightarrow>
          (let op = (case map_of kvs ''op'' of None \<Rightarrow> JNull | Some v \<Rightarrow> v) in
           if is_compound op then Inl (PyError ''TypeError'' ''unhashable type'')
           else if op \<notin> JStr ` valid_ops then Inr (Some (InvalidOperation op i, i))
           else if op = JStr ''test'' then Inr (Some (TestNotSupported, i))
           else validate_ops rest (i + 1))
      | _ \<Rightarrow> Inl (PyError ''AttributeError'' ''object has no attribute get''))"

text \<open>\<^verbatim>\<open>_find_failed_patch_index\<close>: \<open>i\<close> counts the patches already replayed.\<close>

fun find_failed_patch_index ::
  "library \<Rightarrow> store \<Rightarrow> nat \<Rightarrow> json list \<Rightarrow> nat \<Rightarrow> int \<Rightarrow> int \<times> store" where
  "find_failed_patch_index L st current_doc [] i n = (n - 1, st)"
| "find_failed_patch_index L st current_doc (patch # rest) i n =
     (case json_patch_apply L st current_doc [patch] of
        (Inl e, st') \<Rightarrow> (int i, st')
      | (Inr new_doc, st') \<Rightarrow> find_failed_patch_index L st' new_doc rest (i + 1) n)"

definition apply_patches ::
  "library \<Rightarrow> store \<Rightarrow> nat \<Rightarrow> json list \<Rightarrow> (exn + nat patch_result) \<times> store" where
  "apply_patches L st document patches =
     (if patches = [] then (Inr (PatchSuccess document 0 (Some ''No patches to apply'')), st)
      else
        (case validate_ops patches 0 of
           Inl e \<Rightarrow> (Inl e, st)
         | Inr (Some (err, i)) \<Rightarrow> (Inr (PatchFailure err (int i)), st)
         | Inr None \<Rightarrow>
             (case json_patch_apply L st document patches of
                (Inr new_document, st') \<Rightarrow>
                  (Inr (PatchSuccess new_document (length patches) None), st')
              | (Inl (JsonPatchConflict e), st') \<Rightarrow>
                  (case find_failed_patch_index L st' document patches 0 (int (length patches)) of
                     (i, st'') \<Rightarrow> (Inr (PatchFailure (PatchConflict e) i), st''))
              | (Inl (JsonPatchException e), st') \<Rightarrow>
                  (case find_failed_patch_index L st' document patches 0 (int (length patches)) of
                     (i, st'') \<Rightarrow> (Inr (PatchFailure (PatchError e) i), st''))
              | (Inl (JsonPointerException e), st') \<Rightarrow>
                  (case find_failed_patch_index L st' document patches 0 (int (length patches)) of
                     (i, st'') \<Rightarrow> (Inr (PatchFailure (InvalidPath e) i), st''))
              | (Inl (PyError c e), st') \<Rightarrow>
                  (Inr (PatchFailure (UnexpectedError e) 0), st'))))"

text \<open>
  What a caller that holds only the value of its document sees of a call: the call runs
  in a store with that one object, and the returned reference is read.
\<close>

definition apply_patches_value :: "library \<Rightarrow> json \<Rightarrow> json list \<Rightarrow> exn + json patch_result" where
  "apply_patches_value L document patches =
     (case apply_patches L [document] 0 patches of
        (Inl e, st) \<Rightarrow> Inl e
      | (Inr (PatchSuccess r n m), st) \<Rightarrow> Inr (PatchSuccess (st ! r) n m)
      | (Inr (PatchFailure err i), st) \<Rightarrow> Inr (PatchFailure err i))"

text \<open>
  The words of the specification, for comparison with \<open>find_failed_patch_index\<close>:
  the index of the first operation that cannot be applied when the list is replayed one
  operation at a time from the original document; \<open>None\<close> when the replay never fails.
\<close>

fun first_unapplied :: "library \<Rightarrow> json \<Rightarrow> json list \<Rightarrow> nat \<Rightarrow> nat option" where
  "first_unapplied L doc [] i = None"
| "first_unapplied L doc (patch # rest) i =
     (case patch_apply L doc [patch] of
        Inl e \<Rightarrow> Some i
      | Inr doc' \<Rightarrow> first_unapplied L doc' rest (i + 1))"

text \<open>The \<^verbatim>\<open>op\<close> member of a patch as the validation loop reads it.\<close>

definition op_of :: "json \<Rightarrow> json" where
  "op_of patch =
     (case patch of
        Obj kvs \<Rightarrow> (case map_of kvs ''op'' of None \<Rightarrow> JNull | Some v \<Rightarrow> v)
      | _ \<Rightarrow> JNull)"

section \<open>Auxiliary definitions for the statements\<close>

text \<open>
  What \<^verbatim>\<open>inspect_keys\<close> and \<^verbatim>\<open>read_value\<close> look at: the document itself for a
  root path, and what the resolver answers for any other.
\<close>

definition inspect_target :: "library \<Rightarrow> json \<Rightarrow> string \<Rightarrow> exn + resolved" where
  "inspect_target L document path =
     (if path = [] \<or> path = ''/'' then Inr (Value document) else resolve_pointer L document path)"

text \<open>The preview of a scalar: its text, cut after 100 characters with a marker.\<close>

definition preview100 :: "string \<Rightarrow> string" where
  "preview100 s = (if length s > 100 then take 100 s @ ''...'' else s)"

text \<open>A path with an index token of 4301 digits, one more than \<^verbatim>\<open>int\<close> reads.\<close>

definition long_index_path :: string where
  "long_index_path = CHR ''/'' # replicate 4301 (CHR ''1'')"

text \<open>
  Positions below a value: a member of a dictionary by its key, an item of a list by its
  index. \<open>descend v ps\<close> is the value found by following \<open>ps\<close> from \<open>v\<close>, so what it
  finds sits at depth \<open>length ps\<close> below \<open>v\<close>.
\<close>

datatype step = Member string | Item nat

fun child :: "json \<Rightarrow> step \<Rightarrow> json option" where
  "child (Obj kvs) (Member k) = map_of kvs k"
| "child (Arr xs) (Item i) = (if i < length xs then Some (xs ! i) else None)"
| "child v s = None"







text \<open>Patch lists used as concrete inputs.\<close>

definition patches_add_then_bad_remove :: "json list" where
  "patches_add_then_bad_remove =
     [Obj [(''op'', JStr ''add''), (''path'', JStr ''/a''), (''value'', JInt 5)],
      Obj [(''op'', JStr ''remove''), (''path'', JStr ''/b'')]]"

definition patches_scenario_a :: "json list" where
  "patches_scenario_a =
     [Obj [(''op'', JStr ''add''), (''path'', JStr ''/name''), (''value'', JStr ''John'')]]"

definition patches_scenario_b :: "json list" where
  "patches_scenario_b =
     [Obj [(''op'', JStr ''test''), (''path'', JStr ''/x''), (''value'', JInt 1)]]"

definition patches_root_twice :: "json list" where
  "patches_root_twice =
     [Obj [(''op'', JStr ''add''), (''path'', JStr []), (''value'', JInt 5)],
      Obj [(''op'', JStr ''add''), (''path'', JStr []), (''value'', JInt 6)]]"

section \<open>Search (tools/search\_pointer.py)\<close>

text \<open>
  The search keeps a set of \<^verbatim>\<open>id(obj)\<close> of the lists and dictionaries it has entered,
  so that it ends on a structure that refers to itself. A tree cannot show that, so the
  search runs on a heap: every list or dictionary is a node with an identity (its index),
  and a member is a scalar or a reference to a node. A list containing itself is the
  heap \<open>[GList [GRef 0]]\<close>.
\<close>

datatype gval = GScalar scalar | GRef nat

datatype gnode = GDict "(string \<times> gval) list" | GList "gval list"

type_synonym heap = "gnode list"

fun is_ref :: "gval \<Rightarrow> bool" where
  "is_ref (GRef i) = True"
| "is_ref (GScalar v) = False"

definition escape_pointer_token :: "string \<Rightarrow> string" where
  "escape_pointer_token token = str_replace (str_replace token ''~'' ''~0'') ''/'' ''~1''"

text \<open>
  \<^verbatim>\<open>str.lower\<close> and \<^verbatim>\<open>str.split()\<close> on the characters of \<open>char\<close>: the letters
  \<^verbatim>\<open>A\<close> to \<^verbatim>\<open>Z\<close> are lowered, and the separators are the ASCII white space
  characters. \<open>str_contains text word\<close> is \<^verbatim>\<open>word in text\<close>.
\<close>

definition lower_char :: "char \<Rightarrow> char" where
  "lower_char c =
     (if 65 \<le> (of_char c :: nat) \<and> (of_char c :: nat) \<le> 90 then char_of ((of_char c :: nat) + 32)
      else c)"

definition py_lower :: "string \<Rightarrow> string" where
  "py_lower s = map lower_char s"

definition is_space :: "char \<Rightarrow> bool" where
  "is_space c = ((of_char c :: nat) \<in> {9, 10, 11, 12, 13, 28, 29, 30, 31, 32})"

fun split_words :: "string \<Rightarrow> string \<Rightarrow> string list" where
  "split_words w [] = (if w = [] then [] else [w])"
| "split_words w (c # cs) =
     (if is_space c then (if w = [] then split_words [] cs else w # split_words [] cs)
      else split_words (w @ [c]) cs)"

definition py_split :: "string \<Rightarrow> string list" where
  "py_split s = split_words [] s"

fun str_contains :: "string \<Rightarrow> string \<Rightarrow> bool" where
  "str_contains [] word = (word = [])"
| "str_contains (c # cs) word = (take (length word) (c # cs) = word \<or> str_contains cs word)"

definition matches_query :: "string \<Rightarrow> string \<Rightarrow> bool \<Rightarrow> bool" where
  "matches_query text query fuzzy =
     (if query = [] then True
      else
        (let text_lower = py_lower text; query_lower = py_lower query in
         if fuzzy then list_all (\<lambda>word. str_contains text_lower word) (py_split query_lower)
         else str_contains text_lower query_lower))"

text \<open>
  \<^verbatim>\<open>_preview_value\<close>. A reference is read in the heap; a reference to no node does not
  occur in Python and is previewed as an empty list here.
\<close>

definition preview_value :: "heap \<Rightarrow> gval \<Rightarrow> int \<Rightarrow> string" where
  "preview_value h v max_length =
     (case v of
        GRef i \<Rightarrow>
          (if i < length h then
             (case h ! i of
                GDict kvs \<Rightarrow> ''{...} ('' @ show_nat (length kvs) @ '' keys)''
              | GList xs \<Rightarrow> ''[...] ('' @ show_nat (length xs) @ '' items)'')
           else ''[...] (0 items)'')
      | GScalar s \<Rightarrow>
          (let str_val = py_str s in
           if int (length str_val) > max_length then py_take max_length str_val @ ''...''
           else str_val))"

text \<open>
  The dictionaries appended to \<^verbatim>\<open>matches\<close>: \<^verbatim>\<open>{pointer, key, value_preview}\<close> and
  \<^verbatim>\<open>{pointer, matched_value}\<close>.
\<close>

datatype search_match = KeyMatch string string string | ValueMatch string string

text \<open>
  The arguments of \<^verbatim>\<open>_search_recursive\<close> that no call changes, kept together.
\<close>

record search_args =
  sa_query :: string
  sa_search_type :: string
  sa_fuzzy :: bool
  sa_limit :: int
  sa_max_value_length :: int

text \<open>
  What one turn of a loop appends to \<^verbatim>\<open>matches\<close>: in a dictionary, a key match when
  the search is by key, and a value match when it is by value and the value is a scalar;
  in a list, only the value match.
\<close>

definition value_match :: "search_args \<Rightarrow> string \<Rightarrow> gval \<Rightarrow> search_match list \<Rightarrow> search_match list" where
  "value_match P new_path val matches =
     (case val of
        GScalar s \<Rightarrow>
          if matches_query (py_str s) (sa_query P) (sa_fuzzy P)
          then matches @ [ValueMatch new_path (py_take (sa_max_value_length P) (py_str s))]
          else matches
      | GRef i \<Rightarrow> matches)"

definition dict_item_match ::
  "heap \<Rightarrow> search_args \<Rightarrow> string \<Rightarrow> string \<Rightarrow> gval \<Rightarrow> search_match list \<Rightarrow> search_match list" where
  "dict_item_match h P new_path key val matches =
     (if sa_search_type P = ''key'' then
        (if matches_query key (sa_query P) (sa_fuzzy P)
         then matches @ [KeyMatch new_path key (preview_value h val (sa_max_value_length P))]
         else matches)
      else if sa_search_type P = ''value'' \<and> \<not> is_ref val then value_match P new_path val matches
      else matches)"

definition list_item_match ::
  "search_args \<Rightarrow> string \<Rightarrow> gval \<Rightarrow> search_match list \<Rightarrow> search_match list" where
  "list_item_match P new_path item matches =
     (if sa_search_type P = ''value'' \<and> \<not> is_ref item then value_match P new_path item matches
      else matches)"

text \<open>
  \<^verbatim>\<open>_search_recursive\<close> and its two loops. The lists \<^verbatim>\<open>matches\<close> and \<^verbatim>\<open>seen\<close> are
  mutated in place by the source; here they are passed in and returned with the flag.
  The first argument is fuel: it bounds the depth of the recursion, each entry into
  \<open>search_recursive\<close> takes one unit, and \<open>None\<close> means the fuel ran out. That the
  search ends is the statement that some fuel gives \<open>Some\<close>.
\<close>

function search_recursive ::
    "nat \<Rightarrow> heap \<Rightarrow> search_args \<Rightarrow> gval \<Rightarrow> string \<Rightarrow> search_match list \<Rightarrow> nat set
       \<Rightarrow> (bool \<times> search_match list \<times> nat set) option"
  and search_dict ::
    "nat \<Rightarrow> heap \<Rightarrow> search_args \<Rightarrow> (string \<times> gval) list \<Rightarrow> string \<Rightarrow> search_match list \<Rightarrow> nat set
       \<Rightarrow> (bool \<times> search_match list \<times> nat set) option"
  and search_list ::
    "nat \<Rightarrow> heap \<Rightarrow> search_args \<Rightarrow> gval list \<Rightarrow> nat \<Rightarrow> string \<Rightarrow> search_match list \<Rightarrow> nat set
       \<Rightarrow> (bool \<times> search_match list \<times> nat set) option"
where
  "search_recursive 0 h P obj current_path matches seen = None"
| "search_recursive (Suc n) h P obj current_path matches seen =
     (if int (length matches) \<ge> sa_limit P then Some (True, matches, seen)
      else
        (case obj of
           GScalar v \<Rightarrow> Some (False, matches, seen)
         | GRef i \<Rightarrow>
             if i \<in> seen then Some (False, matches, seen)
             else if i \<ge> length h then Some (False, matches, seen)
             else
               (case h ! i of
                  GDict kvs \<Rightarrow> search_dict n h P kvs current_path matches (insert i seen)
                | GList xs \<Rightarrow> search_list n h P xs 0 current_path matches (insert i seen))))"
| "search_dict n h P [] current_path matches seen = Some (False, matches, seen)"
| "search_dict n h P (item # rest) current_path matches seen =
     (if int (length matches) \<ge> sa_limit P then Some (True, matches, seen)
      else if is_ref (snd item) then
        (case search_recursive n h P (snd item)
                (current_path @ ''/'' @ escape_pointer_token (fst item))
                (dict_item_match h P (current_path @ ''/'' @ escape_pointer_token (fst item))
                   (fst item) (snd item) matches)
                seen of
           None \<Rightarrow> None
         | Some r \<Rightarrow>
             if fst r then Some (True, snd r)
             else search_dict n h P rest current_path (fst (snd r)) (snd (snd r)))
      else search_dict n h P rest current_path
             (dict_item_match h P (current_path @ ''/'' @ escape_pointer_token (fst item))
                (fst item) (snd item) matches)
             seen)"
| "search_list n h P [] idx current_path matches seen = Some (False, matches, seen)"
| "search_list n h P (item # rest) idx current_path matches seen =
     (if int (length matches) \<ge> sa_limit P then Some (True, matches, seen)
      else if is_ref item then
        (case search_recursive n h P item (current_path @ ''/'' @ show_nat idx)
                (list_item_match P (current_path @ ''/'' @ show_nat idx) item matches) seen of
           None \<Rightarrow> None
         | Some r \<Rightarrow>
             if fst r then Some (True, snd r)
             else search_list n h P rest (idx + 1) current_path (fst (snd r)) (snd (snd r)))
      else search_list n h P rest (idx + 1) current_path
             (list_item_match P (current_path @ ''/'' @ show_nat idx) item matches) seen)"
  by pat_completeness auto

termination
  by (relation "inv_image (less_than <*lex*> less_than)
        (\<lambda>x. case x of
           Inl (n, h, P, obj, p, m, s) \<Rightarrow> (n, 0)
         | Inr (Inl (n, h, P, items, p, m, s)) \<Rightarrow> (n, Suc (length items))
         | Inr (Inr (n, h, P, items, idx, p, m, s)) \<Rightarrow> (n, Suc (length items)))")
     auto

text \<open>The result dictionary \<^verbatim>\<open>{query, type, fuzzy, matches, count, truncated}\<close>.\<close>

record search_result =
  sr_query :: string
  sr_type :: string
  sr_fuzzy :: bool
  sr_matches :: "search_match list"
  sr_count :: nat
  sr_truncated :: bool

definition search_pointer ::
  "nat \<Rightarrow> heap \<Rightarrow> gval \<Rightarrow> string \<Rightarrow> string \<Rightarrow> bool \<Rightarrow> int \<Rightarrow> int \<Rightarrow> search_result option" where
  "search_pointer fuel h document query search_type fuzzy_match limit max_value_length =
     (case search_recursive fuel h
             \<lparr>sa_query = query, sa_search_type = search_type, sa_fuzzy = fuzzy_match,
              sa_limit = limit, sa_max_value_length = max_value_length\<rparr>
             document [] [] {} of
        None \<Rightarrow> None
      | Some (truncated, matches, seen) \<Rightarrow>
          Some \<lparr>sr_query = query, sr_type = search_type, sr_fuzzy = fuzzy_match,
                sr_matches = matches, sr_count = length matches, sr_truncated = truncated\<rparr>)"

text \<open>The nodes a search may still enter: those of the heap that are not in \<open>seen\<close>.\<close>

definition unseen :: "heap \<Rightarrow> nat set \<Rightarrow> nat set" where
  "unseen h seen = {i. i < length h \<and> i \<notin> seen}"

text \<open>A dictionary that holds itself and a name, and a list of two strings.\<close>

definition cyclic_heap :: heap where
  "cyclic_heap = [GDict [(''self'', GRef 0), (''name'', GScalar (SStr ''Client X Corp''))]]"

definition two_leaves_heap :: heap where
  "two_leaves_heap = [GList [GScalar (SStr ''x''), GScalar (SStr ''x'')]]"

text \<open>
  What a returned triple satisfies, relative to the \<open>matches\<close> and \<open>seen\<close> the call was
  given: \<open>seen\<close> only grows, the number of matches stays within a limit it was within,
  and the flag is raised only with at least \<open>limit\<close> matches.
\<close>

definition search_post ::
  "search_args \<Rightarrow> search_match list \<Rightarrow> nat set \<Rightarrow> (bool \<times> search_match list \<times> nat set) option
     \<Rightarrow> bool" where
  "search_post P m seen res =
     (case res of
        None \<Rightarrow> True
      | Some r \<Rightarrow>
          seen \<subseteq> snd (snd r)
          \<and> (int (length m) \<le> sa_limit P \<longrightarrow> int (length (fst (snd r))) \<le> sa_limit P)
          \<and> (fst r \<longrightarrow> sa_limit P \<le> int (length (fst (snd r)))))"

section \<open>Guidance baton (tools/update\_guidance.py)\<close>

definition update_guidance :: "json \<Rightarrow> json \<Rightarrow> json \<Rightarrow> json \<Rightarrow> json" where
  "update_guidance last_processed_path current_context pending_action extracted_entities_count =
     Obj [(''finalized'', JBool True),
          (''guidance'',
           Obj [(''last_processed_path'', last_processed_path),
                (''current_context'', current_context),
                (''pending_action'', pending_action),
                (''extracted_entities_count'', extracted_entities_count)])]"

text \<open>
  The call \<^verbatim>\<open>update_guidance(**guidance_input)\<close>: the input must be a dictionary whose
  keys are parameter names, or Python raises \<^verbatim>\<open>TypeError\<close>; a parameter that is not
  given takes its default, \<^verbatim>\<open>""\<close> or \<^verbatim>\<open>0\<close>.
\<close>

definition guidance_params :: "string list" where
  "guidance_params =
     [''last_processed_path'', ''current_context'', ''pending_action'',
      ''extracted_entities_count'']"

definition kw :: "(string \<times> json) list \<Rightarrow> string \<Rightarrow> json \<Rightarrow> json" where
  "kw kvs name dflt = (case map_of kvs name of None \<Rightarrow> dflt | Some v \<Rightarrow> v)"

definition call_update_guidance :: "json \<Rightarrow> exn + json" where
  "call_update_guidance guidance_input =
     (case guidance_input of
        Obj kvs \<Rightarrow>
          if list_all (\<lambda>kv. fst kv \<in> set guidance_params) kvs
          then Inr (update_guidance (kw kvs ''last_processed_path'' (JStr []))
                      (kw kvs ''current_context'' (JStr []))
                      (kw kvs ''pending_action'' (JStr []))
                      (kw kvs ''extracted_entities_count'' (JInt 0)))
          else Inl (PyError ''TypeError'' ''got an unexpected keyword argument'')
      | _ \<Rightarrow> Inl (PyError ''TypeError'' ''argument after ** must be a mapping''))"

section \<open>Tool dispatcher (agent/nodes.py)\<close>

text \<open>
  The model's reply is an \<^verbatim>\<open>AIMessage\<close>; of its text only what \<^verbatim>\<open>json.loads\<close> makes
  of it matters: a value, or a \<^verbatim>\<open>JSONDecodeError\<close> with its message.
\<close>

datatype content = Unparsable string | Parsed json

datatype message = SystemMessage string | HumanMessage string | AIMessage content

text \<open>What one action leaves in \<^verbatim>\<open>results\<close> under the key \<^verbatim>\<open>result\<close>.\<close>

datatype tool_output =
    InspectOut inspect_result
  | ReadOut read_result
  | SearchOut search_result
  | PatchOut "json patch_result"
  | GuidanceOut json
  | MustBeOnlyAction
  | UnknownAction json

text \<open>
  An entry \<^verbatim>\<open>{action, input, result}\<close>; the entry of a finalizing turn has no
  \<^verbatim>\<open>input\<close>.
\<close>

record action_result =
  ar_action :: json
  ar_input :: "json option"
  ar_result :: tool_output

text \<open>
  Truth value of a JSON value in a condition. \<^verbatim>\<open>d.get(key, default)\<close> is \<open>kw\<close> on
  a dictionary, and raises \<^verbatim>\<open>AttributeError\<close> on anything else.
\<close>

fun truthy :: "json \<Rightarrow> bool" where
  "truthy (Scalar SNull) = False"
| "truthy (Scalar (SBool b)) = b"
| "truthy (Scalar (SInt i)) = (i \<noteq> 0)"
| "truthy (Scalar (SFloat t)) = (t \<noteq> ''0.0'' \<and> t \<noteq> ''-0.0'')"
| "truthy (Scalar (SStr s)) = (s \<noteq> [])"
| "truthy (Arr xs) = (xs \<noteq> [])"
| "truthy (Obj kvs) = (kvs \<noteq> [])"

definition attribute_error :: exn where
  "attribute_error = PyError ''AttributeError'' ''object has no attribute get''"

text \<open>Sequencing of calls that may raise: the first exception ends the evaluation.\<close>

definition bind_exn :: "exn + 'a \<Rightarrow> ('a \<Rightarrow> exn + 'b) \<Rightarrow> exn + 'b" where
  "bind_exn m f = (case m of Inl e \<Rightarrow> Inl e | Inr x \<Rightarrow> f x)"

text \<open>
  The arguments the dispatcher passes on are whatever JSON the model wrote. The tools
  are typed here, so each call first reads its arguments. Where Python would go wrong
  only when an ill-typed argument is first used (a cap that is no integer, a query that
  is no string), the call raises \<^verbatim>\<open>TypeError\<close> at once.
\<close>

definition as_int :: "json \<Rightarrow> exn + int" where
  "as_int v =
     (case v of
        Scalar (SInt i) \<Rightarrow> Inr i
      | Scalar (SBool b) \<Rightarrow> Inr (if b then 1 else 0)
      | _ \<Rightarrow> Inl (PyError ''TypeError'' ''not an integer''))"

definition as_str :: "json \<Rightarrow> exn + string" where
  "as_str v =
     (case v of
        Scalar (SStr s) \<Rightarrow> Inr s
      | _ \<Rightarrow> Inl (PyError ''TypeError'' ''expected string or bytes-like object''))"

definition call_inspect_keys :: "library \<Rightarrow> json \<Rightarrow> json \<Rightarrow> exn + inspect_result" where
  "call_inspect_keys L document action_input =
     (case action_input of
        Obj kvs \<Rightarrow>
          (let p = kw kvs ''path'' (JStr []) in
           if \<not> truthy p then inspect_keys L document []
           else bind_exn (as_str p) (\<lambda>path. inspect_keys L document path))
      | _ \<Rightarrow> Inl attribute_error)"

definition call_read_value :: "library \<Rightarrow> json \<Rightarrow> json \<Rightarrow> exn + read_result" where
  "call_read_value L document action_input =
     (case action_input of
        Obj kvs \<Rightarrow>
          bind_exn (as_str (kw kvs ''path'' (JStr []))) (\<lambda>path.
          bind_exn (as_int (kw kvs ''max_string_length'' (JInt 160))) (\<lambda>max_string_length.
          bind_exn (as_int (kw kvs ''max_depth'' (JInt 6))) (\<lambda>max_depth.
          bind_exn (as_int (kw kvs ''max_array_items'' (JInt 50))) (\<lambda>max_array_items.
          bind_exn (as_int (kw kvs ''max_object_keys'' (JInt 50))) (\<lambda>max_object_keys.
            read_value L document path max_string_length max_depth max_array_items
              max_object_keys)))))
      | _ \<Rightarrow> Inl attribute_error)"

text \<open>
  The document of the dispatcher is a tree; the search runs on it as a heap in which
  every list and dictionary is a node of its own. \<open>embed v h\<close> adds the nodes of \<open>v\<close> to
  \<open>h\<close>, a node before its members.
\<close>

fun embed :: "json \<Rightarrow> heap \<Rightarrow> gval \<times> heap"
  and embed_list :: "json list \<Rightarrow> heap \<Rightarrow> gval list \<times> heap"
  and embed_fields :: "(string \<times> json) list \<Rightarrow> heap \<Rightarrow> (string \<times> gval) list \<times> heap"
where
  "embed (Scalar s) h = (GScalar s, h)"
| "embed (Arr xs) h =
     (case embed_list xs (h @ [GList []]) of
        (vs, h') \<Rightarrow> (GRef (length h), h'[length h := GList vs]))"
| "embed (Obj kvs) h =
     (case embed_fields kvs (h @ [GDict []]) of
        (fs, h') \<Rightarrow> (GRef (length h), h'[length h := GDict fs]))"
| "embed_list [] h = ([], h)"
| "embed_list (x # xs) h =
     (case embed x h of
        (v, h1) \<Rightarrow> (case embed_list xs h1 of (vs, h2) \<Rightarrow> (v # vs, h2)))"
| "embed_fields [] h = ([], h)"
| "embed_fields (kv # kvs) h =
     (case embed (snd kv) h of
        (v, h1) \<Rightarrow> (case embed_fields kvs h1 of (fs, h2) \<Rightarrow> ((fst kv, v) # fs, h2)))"

definition search_in_tree ::
  "json \<Rightarrow> string \<Rightarrow> string \<Rightarrow> bool \<Rightarrow> int \<Rightarrow> int \<Rightarrow> exn + search_result" where
  "search_in_tree document query search_type fuzzy_match limit max_value_length =
     (case embed document [] of
        (root, h) \<Rightarrow>
          (case search_pointer (Suc (length h)) h root query search_type fuzzy_match limit
                  max_value_length of
             None \<Rightarrow> Inl (PyError ''RecursionError'' ''maximum recursion depth exceeded'')
           | Some r \<Rightarrow> Inr r))"

definition call_search_pointer :: "json \<Rightarrow> json \<Rightarrow> exn + search_result" where
  "call_search_pointer document action_input =
     (case action_input of
        Obj kvs \<Rightarrow>
          (let q = kw kvs ''query'' (JStr []);
               t = kw kvs ''type'' (JStr ''value'');
               f = kw kvs ''fuzzy_match'' (JBool False)
           in
           bind_exn (if truthy q then as_str q else Inr []) (\<lambda>query.
           bind_exn (as_int (kw kvs ''limit'' (JInt 20))) (\<lambda>limit.
           bind_exn (as_int (kw kvs ''max_value_length'' (JInt 120))) (\<lambda>max_value_length.
             search_in_tree document query (case t of Scalar (SStr s) \<Rightarrow> s | _ \<Rightarrow> [])
               (truthy f) limit max_value_length))))
      | _ \<Rightarrow> Inl attribute_error)"

definition call_apply_patches :: "library \<Rightarrow> json \<Rightarrow> json \<Rightarrow> exn + json patch_result" where
  "call_apply_patches L document action_input =
     (case action_input of
        Obj kvs \<Rightarrow>
          (let p = kw kvs ''patches'' (Arr []) in
           if \<not> truthy p then apply_patches_value L document []
           else (case p of
                   Arr patches \<Rightarrow> apply_patches_value L document patches
                 | _ \<Rightarrow> Inl attribute_error))
      | _ \<Rightarrow> Inl attribute_error)"

text \<open>
  One turn of the loop over \<^verbatim>\<open>actions\<close>: the document the next action sees, and the
  entry appended to \<^verbatim>\<open>results\<close>.
\<close>

definition action_entry :: "json \<Rightarrow> json \<Rightarrow> tool_output \<Rightarrow> action_result" where
  "action_entry action_name action_input out =
     \<lparr>ar_action = action_name, ar_input = Some action_input, ar_result = out\<rparr>"

definition document_after :: "json \<Rightarrow> json patch_result \<Rightarrow> json" where
  "document_after new_document r =
     (case r of PatchSuccess d n m \<Rightarrow> d | PatchFailure err i \<Rightarrow> new_document)"

definition dispatch ::
  "library \<Rightarrow> json \<Rightarrow> json \<Rightarrow> json \<Rightarrow> exn + (json \<times> action_result)" where
  "dispatch L new_document action_name action_input =
     (if action_name = JStr ''inspect_keys'' then
        bind_exn (call_inspect_keys L new_document action_input) (\<lambda>r.
          Inr (new_document, action_entry action_name action_input (InspectOut r)))
      else if action_name = JStr ''read_value'' then
        bind_exn (call_read_value L new_document action_input) (\<lambda>r.
          Inr (new_document, action_entry action_name action_input (ReadOut r)))
      else if action_name = JStr ''search_pointer'' then
        bind_exn (call_search_pointer new_document action_input) (\<lambda>r.
          Inr (new_document, action_entry action_name action_input (SearchOut r)))
      else if action_name = JStr ''apply_patches'' then
        bind_exn (call_apply_patches L new_document action_input) (\<lambda>r.
          Inr (document_after new_document r,
               action_entry action_name action_input (PatchOut r)))
      else if action_name = JStr ''update_guidance'' then
        Inr (new_document, action_entry action_name action_input MustBeOnlyAction)
      else Inr (new_document, action_entry action_name action_input (UnknownAction action_name)))"

definition process_action :: "library \<Rightarrow> json \<Rightarrow> json \<Rightarrow> exn + (json \<times> action_result)" where
  "process_action L new_document action_item =
     (case action_item of
        Obj kvs \<Rightarrow> dispatch L new_document (kw kvs ''action'' JNull) (kw kvs ''input'' (Obj []))
      | _ \<Rightarrow> Inl attribute_error)"

fun run_actions :: "library \<Rightarrow> json \<Rightarrow> json list \<Rightarrow> exn + (json \<times> action_result list)" where
  "run_actions L new_document [] = Inr (new_document, [])"
| "run_actions L new_document (action_item # rest) =
     (case process_action L new_document action_item of
        Inl e \<Rightarrow> Inl e
      | Inr (d, r) \<Rightarrow>
          (case run_actions L d rest of
             Inl e \<Rightarrow> Inl e
           | Inr (d', rs) \<Rightarrow> Inr (d', r # rs)))"

section \<open>Chunk orchestrator (agent/nodes.py, agent/graph.py)\<close>

text \<open>
  The run state, \<^verbatim>\<open>AgentState\<close>. \<open>error\<close> is absent until a node sets it. \<open>llm_calls\<close>
  is not a field of the source: it counts the invocations of the model, so that the
  number of model calls can be stated.
\<close>

record agent_state =
  text_in :: string
  target_schema :: "json option"
  max_iterations :: int
  chunks :: "string list"
  current_chunk_idx :: nat
  current_chunk :: string
  json_document :: json
  guidance :: json
  messages :: "message list"
  actions_results :: "action_result list"
  is_chunk_finalized :: bool
  iteration_count :: int
  error :: "string option"
  llm_calls :: nat

text \<open>
  What a node returns: the dictionary of the keys it sets; a key it does not mention is
  \<open>None\<close> and keeps its value.
\<close>

record update =
  u_chunks :: "string list option"
  u_current_chunk_idx :: "nat option"
  u_current_chunk :: "string option"
  u_json_document :: "json option"
  u_guidance :: "json option"
  u_messages :: "message list option"
  u_actions_results :: "action_result list option"
  u_is_chunk_finalized :: "bool option"
  u_iteration_count :: "int option"
  u_max_iterations :: "int option"
  u_error :: "string option"

definition no_update :: update where
  "no_update =
     \<lparr>u_chunks = None, u_current_chunk_idx = None, u_current_chunk = None,
      u_json_document = None, u_guidance = None, u_messages = None,
      u_actions_results = None, u_is_chunk_finalized = None, u_iteration_count = None,
      u_max_iterations = None, u_error = None\<rparr>"

text \<open>
  What the nodes take from outside the sources at hand: the model, the chunker, the
  three prompt builders, and the way the graph library merges a returned \<^verbatim>\<open>messages\<close>
  list into the state (the reducer is declared in agent/state.py, which is not among the
  sources). The model is given the number of calls made before, so that it may answer
  the same messages differently.
\<close>

record env =
  llm :: "nat \<Rightarrow> message list \<Rightarrow> content"
  chunk_with_fallback :: "string \<Rightarrow> string list"
  build_system_prompt :: "json option \<Rightarrow> json \<Rightarrow> json \<Rightarrow> string"
  build_user_message :: "string \<Rightarrow> nat \<Rightarrow> nat \<Rightarrow> string"
  build_observation_message :: "action_result list \<Rightarrow> string"
  merge_messages :: "message list \<Rightarrow> message list \<Rightarrow> message list"

definition opt :: "'a option \<Rightarrow> 'a \<Rightarrow> 'a" where
  "opt u old = (case u of None \<Rightarrow> old | Some v \<Rightarrow> v)"

definition apply_update :: "env \<Rightarrow> update \<Rightarrow> agent_state \<Rightarrow> agent_state" where
  "apply_update E u s =
     s\<lparr>chunks := opt (u_chunks u) (chunks s),
       current_chunk_idx := opt (u_current_chunk_idx u) (current_chunk_idx s),
       current_chunk := opt (u_current_chunk u) (current_chunk s),
       json_document := opt (u_json_document u) (json_document s),
       guidance := opt (u_guidance u) (guidance s),
       messages := (case u_messages u of None \<Rightarrow> messages s
                    | Some ms \<Rightarrow> merge_messages E (messages s) ms),
       actions_results := opt (u_actions_results u) (actions_results s),
       is_chunk_finalized := opt (u_is_chunk_finalized u) (is_chunk_finalized s),
       iteration_count := opt (u_iteration_count u) (iteration_count s),
       max_iterations := opt (u_max_iterations u) (max_iterations s),
       error := (case u_error u of None \<Rightarrow> error s | Some e \<Rightarrow> Some e)\<rparr>"

definition chunk_text_node :: "env \<Rightarrow> agent_state \<Rightarrow> update" where
  "chunk_text_node E state =
     (if text_in state = [] then
        no_update\<lparr>u_chunks := Some [], u_current_chunk_idx := Some 0,
                  u_json_document := Some (Obj []),
                  u_error := Some ''No text provided for processing.''\<rparr>
      else
        no_update\<lparr>u_chunks := Some (chunk_with_fallback E (text_in state)),
                  u_current_chunk_idx := Some 0,
                  u_json_document := Some (Obj []),
                  u_guidance := Some (Obj []),
                  u_is_chunk_finalized := Some False,
                  u_iteration_count := Some 0,
                  u_max_iterations := Some (max_iterations state)\<rparr>)"

definition prepare_chunk_node :: "env \<Rightarrow> agent_state \<Rightarrow> update" where
  "prepare_chunk_node E state =
     (if current_chunk_idx state \<ge> length (chunks state) then
        no_update\<lparr>u_current_chunk := Some []\<rparr>
      else
        (let chunk = chunks state ! current_chunk_idx state;
             system_prompt = build_system_prompt E (target_schema state) (guidance state)
                               (json_document state);
             user_message = build_user_message E chunk (current_chunk_idx state)
                              (length (chunks state))
         in no_update\<lparr>u_current_chunk := Some chunk,
                       u_messages := Some [SystemMessage system_prompt, HumanMessage user_message],
                       u_actions_results := Some [],
                       u_is_chunk_finalized := Some False,
                       u_iteration_count := Some 0\<rparr>))"

text \<open>
  \<^verbatim>\<open>call_llm_node\<close>. The observation is part of the messages sent, not of the state.
  The second component is the state with the call counted.
\<close>

definition call_llm_node :: "env \<Rightarrow> agent_state \<Rightarrow> update" where
  "call_llm_node E state =
     (let msgs = (if actions_results state \<noteq> []
                  then messages state
                       @ [HumanMessage (build_observation_message E (actions_results state))]
                  else messages state);
          response = AIMessage (llm E (llm_calls state) msgs)
      in no_update\<lparr>u_messages := Some [response],
                    u_iteration_count := Some (iteration_count state + 1)\<rparr>)"

text \<open>The last \<^verbatim>\<open>AIMessage\<close> of the messages, if there is one.\<close>

fun last_ai_message :: "message list \<Rightarrow> content option" where
  "last_ai_message [] = None"
| "last_ai_message (m # ms) =
     (case last_ai_message ms of
        Some c \<Rightarrow> Some c
      | None \<Rightarrow> (case m of AIMessage c \<Rightarrow> Some c | _ \<Rightarrow> None))"

definition finalize_turn :: "json \<Rightarrow> exn + update" where
  "finalize_turn action_item =
     (case action_item of
        Obj kvs \<Rightarrow>
          bind_exn (call_update_guidance (kw kvs ''input'' (Obj []))) (\<lambda>guidance_result.
            Inr (no_update
                   \<lparr>u_guidance := Some (kw (case guidance_result of Obj g \<Rightarrow> g | _ \<Rightarrow> [])
                                          ''guidance'' JNull),
                    u_is_chunk_finalized := Some True,
                    u_actions_results :=
                      Some [\<lparr>ar_action = JStr ''update_guidance'', ar_input = None,
                             ar_result = GuidanceOut guidance_result\<rparr>]\<rparr>))
      | _ \<Rightarrow> Inl attribute_error)"

text \<open>
  The head of \<^verbatim>\<open>execute_tools_node\<close>, on a reply that parsed: the turn is a
  finalization when \<^verbatim>\<open>actions\<close> has exactly one item and its action is
  \<^verbatim>\<open>update_guidance\<close>. An item that is no dictionary raises when its action is read.
\<close>

definition is_sole_update_guidance :: "json list \<Rightarrow> exn + bool" where
  "is_sole_update_guidance actions =
     (case actions of
        [action_item] \<Rightarrow>
          (case action_item of
             Obj kvs \<Rightarrow> Inr (kw kvs ''action'' JNull = JStr ''update_guidance'')
           | _ \<Rightarrow> Inl attribute_error)
      | _ \<Rightarrow> Inr False)"

definition execute_actions :: "library \<Rightarrow> agent_state \<Rightarrow> json list \<Rightarrow> exn + update" where
  "execute_actions L state actions =
     bind_exn (is_sole_update_guidance actions) (\<lambda>sole.
       if sole then finalize_turn (hd actions)
       else bind_exn (run_actions L (json_document state) actions) (\<lambda>r.
              Inr (no_update\<lparr>u_json_document := Some (fst r),
                             u_actions_results := Some (snd r)\<rparr>)))"

definition execute_tools_node :: "library \<Rightarrow> agent_state \<Rightarrow> exn + update" where
  "execute_tools_node L state =
     (case last_ai_message (messages state) of
        None \<Rightarrow> Inr (no_update\<lparr>u_error := Some ''No LLM response found.''\<rparr>)
      | Some (Unparsable e) \<Rightarrow>
          Inr (no_update\<lparr>u_error := Some (''Error parsing LLM response: '' @ e)\<rparr>)
      | Some (Parsed response_data) \<Rightarrow>
          (case response_data of
             Obj kvs \<Rightarrow>
               (let actions = kw kvs ''actions'' (Arr []) in
                if \<not> truthy actions
                then Inr (no_update\<lparr>u_error := Some ''No actions specified by the LLM.''\<rparr>)
                else (case actions of
                        Arr xs \<Rightarrow> execute_actions L state xs
                      | _ \<Rightarrow> Inl (PyError ''TypeError'' ''actions is not a list'')))
           | _ \<Rightarrow> Inl attribute_error))"

definition finalize_chunk_node :: "agent_state \<Rightarrow> update" where
  "finalize_chunk_node state =
     no_update\<lparr>u_current_chunk_idx := Some (current_chunk_idx state + 1),
               u_is_chunk_finalized := Some False,
               u_actions_results := Some []\<rparr>"

text \<open>The nodes of the graph and its two routing functions.\<close>

datatype node = ChunkText | PrepareChunk | CallLlm | ExecuteTools | FinalizeChunk | End

definition has_more_chunks :: "agent_state \<Rightarrow> node" where
  "has_more_chunks state =
     (if error state \<noteq> None \<and> error state \<noteq> Some [] then End
      else if current_chunk_idx state < length (chunks state) then CallLlm
      else End)"

definition is_chunk_done :: "agent_state \<Rightarrow> node" where
  "is_chunk_done state =
     (if is_chunk_finalized state then FinalizeChunk
      else if iteration_count state \<ge> max_iterations state then FinalizeChunk
      else if error state \<noteq> None \<and> error state \<noteq> Some [] then FinalizeChunk
      else CallLlm)"

text \<open>
  One step of the compiled graph of \<^verbatim>\<open>create_graph\<close>: the node runs, its update is
  merged, and the edge out of it is followed. An exception in a node ends the run.
  The step limit of the graph library is not part of the model.
\<close>

definition step :: "env \<Rightarrow> library \<Rightarrow> node \<times> agent_state \<Rightarrow> exn + (node \<times> agent_state)" where
  "step E L c =
     (case c of (n, s) \<Rightarrow>
        (case n of
           ChunkText \<Rightarrow> Inr (PrepareChunk, apply_update E (chunk_text_node E s) s)
         | PrepareChunk \<Rightarrow>
             (let s' = apply_update E (prepare_chunk_node E s) s in Inr (has_more_chunks s', s'))
         | CallLlm \<Rightarrow>
             Inr (ExecuteTools,
                  (apply_update E (call_llm_node E s) s)\<lparr>llm_calls := llm_calls s + 1\<rparr>)
         | ExecuteTools \<Rightarrow>
             bind_exn (execute_tools_node L s) (\<lambda>u.
               (let s' = apply_update E u s in Inr (is_chunk_done s', s')))
         | FinalizeChunk \<Rightarrow> Inr (PrepareChunk, apply_update E (finalize_chunk_node s) s)
         | End \<Rightarrow> Inr (End, s)))"

fun steps :: "nat \<Rightarrow> env \<Rightarrow> library \<Rightarrow> node \<times> agent_state \<Rightarrow> exn + (node \<times> agent_state)" where
  "steps 0 E L c = Inr c"
| "steps (Suc k) E L c = bind_exn (step E L c) (steps k E L)"

text \<open>The guidance a finalizing turn installs, from the keyword arguments given.\<close>

definition new_guidance :: "(string \<times> json) list \<Rightarrow> json" where
  "new_guidance ikvs =
     Obj [(''last_processed_path'', kw ikvs ''last_processed_path'' (JStr [])),
          (''current_context'', kw ikvs ''current_context'' (JStr [])),
          (''pending_action'', kw ikvs ''pending_action'' (JStr [])),
          (''extracted_entities_count'', kw ikvs ''extracted_entities_count'' (JInt 0))]"

text \<open>Turns and states used as concrete inputs.\<close>

definition finalize_action :: json where
  "finalize_action =
     Obj [(''action'', JStr ''update_guidance''),
          (''input'', Obj [(''pending_action'', JStr ''expect_total'')])]"

definition patch_action :: json where
  "patch_action =
     Obj [(''action'', JStr ''apply_patches''), (''input'', Obj [(''patches'', Arr patches_scenario_a)])]"

definition turn_of :: "json list \<Rightarrow> content" where
  "turn_of actions = Parsed (Obj [(''think'', JStr ''...''), (''actions'', Arr actions)])"

definition state0 :: agent_state where
  "state0 =
     \<lparr>text_in = ''some text'', target_schema = None, max_iterations = 2,
      chunks = [''first'', ''second''], current_chunk_idx = 0, current_chunk = ''first'',
      json_document = Obj [], guidance = Obj [], messages = [], actions_results = [],
      is_chunk_finalized = False, iteration_count = 0, error = None, llm_calls = 0\<rparr>"

definition finalize_state :: agent_state where
  "finalize_state = state0\<lparr>messages := [AIMessage (turn_of [finalize_action])]\<rparr>"

definition mixed_state :: agent_state where
  "mixed_state = state0\<lparr>messages := [AIMessage (turn_of [finalize_action, patch_action])]\<rparr>"

definition mixed_update :: update where
  "mixed_update =
     no_update
       \<lparr>u_json_document := Some (Obj [(''name'', JStr ''John'')]),
        u_actions_results :=
          Some [action_entry (JStr ''update_guidance'')
                  (Obj [(''pending_action'', JStr ''expect_total'')]) MustBeOnlyAction,
                action_entry (JStr ''apply_patches'') (Obj [(''patches'', Arr patches_scenario_a)])
                  (PatchOut (PatchSuccess (Obj [(''name'', JStr ''John'')]) 1 None))]\<rparr>"

definition no_actions_message :: string where
  "no_actions_message = ''No actions specified by the LLM.''"

definition empty_turn_state :: agent_state where
  "empty_turn_state = state0\<lparr>messages := [AIMessage (turn_of [])]\<rparr>"

text \<open>
  An environment for concrete runs: the model always answers with the same two
  \<^verbatim>\<open>update_guidance\<close> actions (which is no finalization), returned messages are
  appended, and the texts are empty.
\<close>

definition stubborn_env :: env where
  "stubborn_env =
     \<lparr>llm = (\<lambda>k ms. turn_of [finalize_action, finalize_action]),
      chunk_with_fallback = (\<lambda>t. [t]),
      build_system_prompt = (\<lambda>schema g d. []),
      build_user_message = (\<lambda>c i n. []),
      build_observation_message = (\<lambda>rs. []),
      merge_messages = (\<lambda>old new. old @ new)\<rparr>"

text \<open>
  The state in which \<^verbatim>\<open>execute_tools_node\<close> runs after a model call from \<open>s\<close>: the
  update of \<^verbatim>\<open>call_llm_node\<close> merged, and the call counted.
\<close>

definition after_call :: "env \<Rightarrow> agent_state \<Rightarrow> agent_state" where
  "after_call E s = (apply_update E (call_llm_node E s) s)\<lparr>llm_calls := llm_calls s + 1\<rparr>"

text \<open>\<^verbatim>\<open>state.get("error")\<close> is true: the key is set, to a text that is not empty.\<close>

definition fatal :: "agent_state \<Rightarrow> bool" where
  "fatal s = (error s \<noteq> None \<and> error s \<noteq> Some [])"

text \<open>
  \<open>quiet_turns k E L s\<close>: in each of the next \<open>k\<close> turns from \<open>s\<close> (a model call and
  the dispatch of its reply) the dispatcher returns, and what it returns is neither a
  finalization nor an error.
\<close>

fun quiet_turns :: "nat \<Rightarrow> env \<Rightarrow> library \<Rightarrow> agent_state \<Rightarrow> bool" where
  "quiet_turns 0 E L s = True"
| "quiet_turns (Suc k) E L s =
     (case execute_tools_node L (after_call E s) of
        Inl e \<Rightarrow> False
      | Inr u \<Rightarrow>
          u_error u = None \<and> u_is_chunk_finalized u = None
          \<and> quiet_turns k E L (apply_update E u (after_call E s)))"

text \<open>The state \<^verbatim>\<open>extract\<close> starts the graph with.\<close>

definition initial_state :: "string \<Rightarrow> json option \<Rightarrow> int \<Rightarrow> agent_state" where
  "initial_state text schema max_iterations_per_chunk =
     \<lparr>text_in = text, target_schema = schema, max_iterations = max_iterations_per_chunk,
      chunks = [], current_chunk_idx = 0, current_chunk = [],
      json_document = Obj [], guidance = Obj [], messages = [], actions_results = [],
      is_chunk_finalized = False, iteration_count = 0, error = None, llm_calls = 0\<rparr>"

text \<open>The number of model calls a chunk gets under the cap \<open>N\<close>.\<close>

definition calls_under_cap :: "int \<Rightarrow> nat" where
  "calls_under_cap N = nat (max N 1)"

section \<open>Pointer codec: round trip\<close>

lemma replace_scan_single:
  "replace_scan [a] new s = concat (map (\<lambda>c. if c = a then new else [c]) s)"
  by (induction s) auto

lemma encode_as_concat: "encode_pointer_token s = concat (map enc_char s)"
  by (induction s) (auto simp: encode_pointer_token_def str_replace_def replace_scan_single enc_char_def)

lemma unescape_slash: "replace_scan ''~1'' ''/'' (concat (map enc_char s)) = concat (map tilde_char s)"
  by (induction s) (auto simp: enc_char_def tilde_char_def)

lemma unescape_tilde: "replace_scan ''~0'' ''~'' (concat (map tilde_char s)) = s"
  by (induction s) (auto simp: tilde_char_def)

text \<open>
  C7. For every string \<open>s\<close>, decoding the encoded token gives \<open>s\<close> back:
  \<open>decode_pointer_token (encode_pointer_token s) = s\<close>, where encoding escapes
  \<open>~\<close> before \<open>/\<close> and decoding undoes \<open>~1\<close> before \<open>~0\<close>.
\<close>

theorem pointer_token_round_trip: "decode_pointer_token (encode_pointer_token s) = s"
  by (simp add: decode_pointer_token_def str_replace_def encode_as_concat unescape_slash unescape_tilde)

section \<open>Query engine: inspection and truncation\<close>












lemma read_value_end_of_list:
  "inspect_target L document path = Inr (EndOfList xs) \<Longrightarrow>
   read_value L document path msl md mai mok = Inr (ReadFound path (EndOfList xs) ''EndOfList'')"
  unfolding read_value_def inspect_target_def by simp






lemma no_tilde_no_invalid_escape: "CHR ''~'' \<notin> set s \<Longrightarrow> \<not> has_invalid_escape s"
  by (induction s rule: has_invalid_escape.induct) auto

lemma split_on_absent: "sep \<notin> set s \<Longrightarrow> split_on sep s = [s]"
  by (induction s) auto

lemma replace_scan_absent:
  "old \<noteq> [] \<Longrightarrow> hd old \<notin> set s \<Longrightarrow> replace_scan old new s = s"
proof (induction s)
  case Nil
  then show ?case by simp
next
  case (Cons c cs)
  then have "take (length old) (c # cs) \<noteq> old"
    by (cases old) auto
  then show ?case using Cons by simp
qed

lemma decode_no_tilde: "CHR ''~'' \<notin> set s \<Longrightarrow> decode_pointer_token s = s"
  unfolding decode_pointer_token_def str_replace_def
  by (simp add: replace_scan_absent)

lemma ones_index: "0 < n \<Longrightarrow> is_array_index (replicate n (CHR ''1''))"
  unfolding is_array_index_def
  by (cases n) (auto simp: list_all_iff is_digit_def)

lemma long_ones_resolve:
  assumes "4300 < n"
  shows "ref_resolve_pointer (Arr xs) (CHR ''/'' # replicate n (CHR ''1''))
           = Inl (PyError ''ValueError''
                    ''Exceeds the limit (4300 digits) for integer string conversion'')"
proof -
  let ?p = "replicate n (CHR ''1'')"
  have nt: "CHR ''~'' \<notin> set (CHR ''/'' # ?p)" by auto
  have parts: "pointer_parts (CHR ''/'' # ?p) = Inr [?p]"
    unfolding pointer_parts_def
    using no_tilde_no_invalid_escape[OF nt]
    by (simp add: split_on_absent decode_no_tilde)
  have nd: "?p \<noteq> ''-''"
  proof
    assume "?p = ''-''"
    then have "length ?p = length ''-''" by simp
    then show False using assms by simp
  qed
  have "sequence_part ?p
          = Inl (PyError ''ValueError''
                   ''Exceeds the limit (4300 digits) for integer string conversion'')"
    unfolding sequence_part_def py_int_def using nd ones_index[of n] assms by simp
  then show ?thesis unfolding ref_resolve_pointer_def parts by simp
qed

lemma long_index_raises:
  "inspect_keys ref_library (Arr []) long_index_path
     = Inl (PyError ''ValueError'' ''Exceeds the limit (4300 digits) for integer string conversion'')"
proof -
  have "long_index_path \<noteq> [] \<and> long_index_path \<noteq> ''/''"
    unfolding long_index_path_def by simp
  moreover have "resolve_pointer ref_library (Arr []) long_index_path
          = Inl (PyError ''ValueError''
                   ''Exceeds the limit (4300 digits) for integer string conversion'')"
    unfolding long_index_path_def ref_library_def using long_ones_resolve[of 4301 "[]"] by simp
  ultimately show ?thesis unfolding inspect_keys_def Let_def by simp
qed

lemma preview100_props:
  "take 100 (preview100 t) = take 100 t \<and> length (preview100 t) \<le> 103
   \<and> preview100 t = (if length t \<le> 100 then t else take 100 t @ ''...'')"
  unfolding preview100_def by simp

text \<open>
  C8, as the code has it by design. A pointer-resolution failure
  (\<^verbatim>\<open>JsonPointerException\<close>) gives \<open>InspectNotFound\<close> with the error text and the path.
  A dictionary gives its keys and their count, a list its length, and any other value its
  type name and a preview of its text: the text itself up to 100 characters, beyond that
  its first 100 characters followed by three dots, 103 characters at most. The
  end-of-list marker of a final \<^verbatim>\<open>-\<close> is such an other value, of type
  \<^verbatim>\<open>EndOfList\<close>.
\<close>

theorem inspect_keys_shapes:
  "(inspect_target L document path = Inl (JsonPointerException e)
      \<longrightarrow> inspect_keys L document path = Inr (InspectNotFound e path))
   \<and> (inspect_target L document path = Inr (Value (Obj kvs))
      \<longrightarrow> inspect_keys L document path = Inr (InspectObject path (map fst kvs) (length kvs)))
   \<and> (inspect_target L document path = Inr (Value (Arr xs))
      \<longrightarrow> inspect_keys L document path = Inr (InspectArray path (length xs)))
   \<and> (inspect_target L document path = Inr (Value (Scalar v))
      \<longrightarrow> inspect_keys L document path
            = Inr (InspectScalar path (scalar_type_name v) (preview100 (py_str v))))
   \<and> (inspect_target L document path = Inr (EndOfList s)
      \<longrightarrow> inspect_keys L document path
            = Inr (InspectScalar path ''EndOfList'' (preview100 (end_of_list_str L s))))
   \<and> preview100 t = (if length t \<le> 100 then t else take 100 t @ ''...'')
   \<and> length (preview100 t) \<le> 103"
  unfolding inspect_keys_def inspect_target_def Let_def
  using preview100_props[of t]
  by (simp add: preview100_def)

lemma inspect_targets:
  "inspect_target ref_library (Obj [(''xs'', Arr [JInt 1, JStr ''a''])]) ''/b''
     = Inl (JsonPointerException ''member b not found'')"
  "inspect_target ref_library (Obj [(''xs'', Arr [JInt 1, JStr ''a''])]) []
     = Inr (Value (Obj [(''xs'', Arr [JInt 1, JStr ''a''])]))"
  "inspect_target ref_library (Obj [(''xs'', Arr [JInt 1, JStr ''a''])]) ''/xs''
     = Inr (Value (Arr [JInt 1, JStr ''a'']))"
  "inspect_target ref_library (Obj [(''xs'', Arr [JInt 1, JStr ''a''])]) ''/xs/0''
     = Inr (Value (Scalar (SInt 1)))"
  "inspect_target ref_library (Obj [(''xs'', Arr [JInt 1, JStr ''a''])]) ''/xs/-''
     = Inr (EndOfList (Arr [JInt 1, JStr ''a'']))"
  by code_simp+

lemma inspect_texts:
  "preview100 (py_str (SInt 1)) = ''1''"
  "preview100 (end_of_list_str ref_library (Arr [JInt 1, JStr ''a'']))
     = ''EndOfList([1, '' @ [CHR 0x27, CHR ''a'', CHR 0x27] @ ''])''"
  "scalar_type_name (SInt 1) = ''int''"
  by code_simp+

theorem inspect_keys_shapes_witness:
  "inspect_keys ref_library (Obj [(''xs'', Arr [JInt 1, JStr ''a''])]) ''/b''
     = Inr (InspectNotFound ''member b not found'' ''/b'')
   \<and> inspect_keys ref_library (Obj [(''xs'', Arr [JInt 1, JStr ''a''])]) []
     = Inr (InspectObject [] [''xs''] 1)
   \<and> inspect_keys ref_library (Obj [(''xs'', Arr [JInt 1, JStr ''a''])]) ''/xs''
     = Inr (InspectArray ''/xs'' 2)
   \<and> inspect_keys ref_library (Obj [(''xs'', Arr [JInt 1, JStr ''a''])]) ''/xs/0''
     = Inr (InspectScalar ''/xs/0'' ''int'' ''1'')
   \<and> inspect_keys ref_library (Obj [(''xs'', Arr [JInt 1, JStr ''a''])]) ''/xs/-''
     = Inr (InspectScalar ''/xs/-'' ''EndOfList''
              (''EndOfList([1, '' @ [CHR 0x27, CHR ''a'', CHR 0x27] @ ''])''))"
proof -
  let ?d = "Obj [(''xs'', Arr [JInt 1, JStr ''a''])]"
  have a: "inspect_keys ref_library ?d ''/b''
             = Inr (InspectNotFound ''member b not found'' ''/b'')"
    using inspect_keys_shapes[where L = ref_library and document = ?d and path = "''/b''"
        and e = "''member b not found''"] inspect_targets(1)
    by blast
  have b: "inspect_keys ref_library ?d []
             = Inr (InspectObject [] (map fst [(''xs'', Arr [JInt 1, JStr ''a''])])
                      (length [(''xs'', Arr [JInt 1, JStr ''a''])]))"
    using inspect_keys_shapes[where L = ref_library and document = ?d and path = "[]"
        and kvs = "[(''xs'', Arr [JInt 1, JStr ''a''])]"] inspect_targets(2)
    by blast
  have c: "inspect_keys ref_library ?d ''/xs''
             = Inr (InspectArray ''/xs'' (length [JInt 1, JStr ''a'']))"
    using inspect_keys_shapes[where L = ref_library and document = ?d and path = "''/xs''"
        and xs = "[JInt 1, JStr ''a'']"] inspect_targets(3)
    by blast
  have d: "inspect_keys ref_library ?d ''/xs/0''
             = Inr (InspectScalar ''/xs/0'' (scalar_type_name (SInt 1))
                      (preview100 (py_str (SInt 1))))"
    using inspect_keys_shapes[where L = ref_library and document = ?d and path = "''/xs/0''"
        and v = "SInt 1"] inspect_targets(4)
    by blast
  have e: "inspect_keys ref_library ?d ''/xs/-''
             = Inr (InspectScalar ''/xs/-'' ''EndOfList''
                      (preview100 (end_of_list_str ref_library (Arr [JInt 1, JStr ''a'']))))"
    using inspect_keys_shapes[where L = ref_library and document = ?d and path = "''/xs/-''"
        and s = "Arr [JInt 1, JStr ''a'']"] inspect_targets(5)
    by blast
  show ?thesis
    unfolding a b c d e inspect_texts by simp
qed

lemma preview_run:
  "inspect_keys ref_library (JStr (replicate 101 (CHR ''a''))) []
     = Inr (InspectScalar [] ''str'' (replicate 100 (CHR ''a'') @ ''...''))
   \<and> length (replicate 100 (CHR ''a'') @ ''...'') = 103"
  by code_simp

text \<open>
  The claim as stated fails twice. A string of 101 characters is previewed by 103
  characters. And an exception of the resolver that is no \<^verbatim>\<open>JsonPointerException\<close>
  passes the \<^verbatim>\<open>except\<close> clause: on a list, an index token of 4301 digits makes
  \<^verbatim>\<open>int\<close> raise \<^verbatim>\<open>ValueError\<close>, which reaches the caller.
\<close>

theorem inspect_keys_counterexample:
  "inspect_keys ref_library (JStr (replicate 101 (CHR ''a''))) []
     = Inr (InspectScalar [] ''str'' (replicate 100 (CHR ''a'') @ ''...''))
   \<and> length (replicate 100 (CHR ''a'') @ ''...'') = 103
   \<and> inspect_keys ref_library (Arr []) long_index_path
     = Inl (PyError ''ValueError''
              ''Exceeds the limit (4300 digits) for integer string conversion'')"
  using preview_run long_index_raises by blast

section \<open>Patch engine: what a call leaves in the store\<close>

lemma json_patch_apply_frame:
  "json_patch_apply L st r ps = (res, st') \<Longrightarrow> take (length st) st' = st"
  by (auto simp: json_patch_apply_def split: sum.splits)

lemma json_patch_apply_fresh:
  "json_patch_apply L st r ps = (Inr new, st') \<Longrightarrow>
     new = length st \<and> length st' = Suc (length st)
     \<and> patch_apply L (st ! r) ps = Inr (st' ! new)"
  by (auto simp: json_patch_apply_def split: sum.splits)

lemma take_take_frame:
  "take (length st) st' = st \<Longrightarrow> take (length st') st'' = st' \<Longrightarrow> take (length st) st'' = st"
  by (metis append_eq_conv_conj append_take_drop_id take_append length_take min.cobounded2 take_all_iff)

lemma find_failed_frame:
  "find_failed_patch_index L st cur ps i n = (k, st') \<Longrightarrow> take (length st) st' = st"
proof (induction ps arbitrary: st cur i)
  case Nil
  then show ?case by simp
next
  case (Cons p ps)
  obtain res st1 where a: "json_patch_apply L st cur [p] = (res, st1)" by force
  have f1: "take (length st) st1 = st" using json_patch_apply_frame[OF a] .
  show ?case
  proof (cases res)
    case (Inl e)
    then show ?thesis using Cons.prems a f1 by simp
  next
    case (Inr new)
    then have "find_failed_patch_index L st1 new ps (i + 1) n = (k, st')"
      using Cons.prems a by simp
    from Cons.IH[OF this] f1 show ?thesis by (rule take_take_frame[rotated])
  qed
qed

lemma apply_patches_frame:
  "apply_patches L st document patches = (res, st') \<Longrightarrow> take (length st) st' = st"
  unfolding apply_patches_def
  by (auto split: if_splits sum.splits option.splits prod.splits exn.splits
      dest!: json_patch_apply_frame find_failed_frame intro: take_take_frame)

text \<open>
  C2. When \<open>apply_patches\<close> reports failure, the caller's document object holds the value
  it held before the call, and so does every other object that existed: the store after
  the call starts with the store before it.
\<close>

theorem apply_patches_failure_frame:
  assumes "document < length st"
    and "apply_patches L st document patches = (Inr (PatchFailure err i), st')"
  shows "st' ! document = st ! document \<and> take (length st) st' = st"
proof -
  have f: "take (length st) st' = st" using apply_patches_frame[OF assms(2)] .
  then have "st' ! document = st ! document"
    using assms(1) by (metis nth_take)
  with f show ?thesis by simp
qed

lemma add_then_bad_remove_run:
  "apply_patches ref_library [Obj []] 0 patches_add_then_bad_remove
     = (Inr (PatchFailure (PatchConflict ''cannot remove a non-existent object'') 1),
        [Obj [], Obj [(''a'', JInt 5)]])"
  by code_simp

theorem apply_patches_failure_frame_witness:
  "apply_patches ref_library [Obj []] 0 patches_add_then_bad_remove
       = (Inr (PatchFailure (PatchConflict ''cannot remove a non-existent object'') 1),
          [Obj [], Obj [(''a'', JInt 5)]])
   \<and> [Obj [], Obj [(''a'', JInt 5)]] ! 0 = [Obj []] ! 0
   \<and> take (length [Obj []]) [Obj [], Obj [(''a'', JInt 5)]] = [Obj []]"
proof -
  have l: "(0::nat) < length [Obj []]" by simp
  note h = add_then_bad_remove_run
  from apply_patches_failure_frame[OF l h] h show ?thesis by (rule conjI[rotated])
qed

lemma apply_patches_success_inv:
  assumes ne: "patches \<noteq> []"
    and run: "apply_patches L st document patches = (Inr (PatchSuccess new_document n m), st')"
  shows "json_patch_apply L st document patches = (Inr new_document, st') \<and> n = length patches"
proof (cases "validate_ops patches 0")
  case (Inl e)
  with ne run show ?thesis by (simp add: apply_patches_def)
next
  case (Inr found)
  show ?thesis
  proof (cases found)
    case (Some a)
    with Inr ne run show ?thesis by (simp add: apply_patches_def split: prod.splits)
  next
    case None
    obtain r s1 where j: "json_patch_apply L st document patches = (r, s1)" by force
    show ?thesis
    proof (cases r)
      case (Inr new)
      with None \<open>validate_ops patches 0 = Inr found\<close> ne run j show ?thesis
        by (simp add: apply_patches_def)
    next
      case (Inl e)
      with None \<open>validate_ops patches 0 = Inr found\<close> ne run j show ?thesis
        by (cases e) (simp_all add: apply_patches_def split: prod.splits)
    qed
  qed
qed

text \<open>
  C10. When a non-empty patch list applies, the result is a new object of the store,
  holding what the package computed from the value of the caller's document; the
  caller's own object holds the value it held before the call.
\<close>

theorem apply_patches_success_separate:
  assumes "document < length st"
    and "patches \<noteq> []"
    and "apply_patches L st document patches = (Inr (PatchSuccess new_document n m), st')"
  shows "new_document \<noteq> document \<and> length st \<le> new_document \<and> new_document < length st'
         \<and> st' ! document = st ! document
         \<and> patch_apply L (st ! document) patches = Inr (st' ! new_document)
         \<and> n = length patches"
proof -
  have f: "take (length st) st' = st" using apply_patches_frame[OF assms(3)] .
  then have d: "st' ! document = st ! document"
    using assms(1) by (metis nth_take)
  have j: "json_patch_apply L st document patches = (Inr new_document, st')"
    and n: "n = length patches"
    using apply_patches_success_inv[OF assms(2,3)] by simp_all
  have a: "new_document = length st" and b: "length st' = Suc (length st)"
    and c: "patch_apply L (st ! document) patches = Inr (st' ! new_document)"
    using json_patch_apply_fresh[OF j] by blast+
  from a b assms(1) d c n show ?thesis by simp
qed


lemma scenario_a_run:
  "apply_patches ref_library [Obj []] 0 patches_scenario_a
     = (Inr (PatchSuccess 1 1 None), [Obj [], Obj [(''name'', JStr ''John'')]])"
  by code_simp

theorem apply_patches_success_separate_witness:
  "apply_patches ref_library [Obj []] 0 patches_scenario_a
     = (Inr (PatchSuccess 1 1 None), [Obj [], Obj [(''name'', JStr ''John'')]])
   \<and> ((1::nat) \<noteq> 0 \<and> length [Obj []] \<le> (1::nat)
        \<and> (1::nat) < length [Obj [], Obj [(''name'', JStr ''John'')]]
        \<and> [Obj [], Obj [(''name'', JStr ''John'')]] ! 0 = [Obj []] ! 0
        \<and> patch_apply ref_library ([Obj []] ! 0) patches_scenario_a
            = Inr ([Obj [], Obj [(''name'', JStr ''John'')]] ! 1)
        \<and> (1::nat) = length patches_scenario_a)"
proof -
  have l: "(0::nat) < length [Obj []]" by simp
  have ne: "patches_scenario_a \<noteq> []" by (simp add: patches_scenario_a_def)
  note h = scenario_a_run
  from apply_patches_success_separate[OF l ne h] h show ?thesis by (rule conjI[rotated])
qed

section \<open>Patch engine: the reported index\<close>

text \<open>
  The validation loop reports the first patch whose \<open>op\<close> is not one of the five names,
  with the error \<open>InvalidOperation\<close>. It never answers \<open>TestNotSupported\<close>: \<^verbatim>\<open>test\<close> is
  not in \<open>valid_ops\<close>, so the membership check before it answers first.
\<close>

lemma validate_ops_first_invalid:
  "validate_ops patches i = Inr (Some (err, k)) \<Longrightarrow>
     (\<exists>j < length patches. k = i + j \<and> err = InvalidOperation (op_of (patches ! j)) k
        \<and> op_of (patches ! j) \<notin> JStr ` valid_ops
        \<and> (\<forall>j' < j. op_of (patches ! j') \<in> JStr ` valid_ops))"
proof (induction patches arbitrary: i)
  case Nil
  then show ?case by simp
next
  case (Cons p ps)
  show ?case
  proof (cases p)
    case (Obj kvs)
    let ?op = "case map_of kvs ''op'' of None \<Rightarrow> JNull | Some v \<Rightarrow> v"
    have op: "op_of p = ?op" using Obj by (simp add: op_of_def)
    show ?thesis
    proof (cases "?op \<in> JStr ` valid_ops")
      case False
      then have "err = InvalidOperation ?op i \<and> k = i"
        using Cons.prems Obj by (auto simp: Let_def split: if_splits)
      then show ?thesis using False op by (intro exI[of _ 0]) simp
    next
      case True
      then have nc: "\<not> is_compound ?op" by auto
      have nt: "?op \<noteq> JStr ''test''" using True by (auto simp: valid_ops_def)
      have "validate_ops ps (i + 1) = Inr (Some (err, k))"
        using Cons.prems Obj True nc nt by (simp add: Let_def)
      from Cons.IH[OF this] obtain j where j: "j < length ps" "k = i + 1 + j"
        "err = InvalidOperation (op_of (ps ! j)) k" "op_of (ps ! j) \<notin> JStr ` valid_ops"
        "\<forall>j' < j. op_of (ps ! j') \<in> JStr ` valid_ops" by blast
      have "\<forall>j' < Suc j. op_of ((p # ps) ! j') \<in> JStr ` valid_ops"
        using j(5) True op by (auto simp: less_Suc_eq_0_disj)
      with j show ?thesis by (intro exI[of _ "Suc j"]) simp
    qed
  qed (use Cons.prems in simp_all)
qed

lemma find_failed_is_first_unapplied:
  "cur < length st \<Longrightarrow>
     fst (find_failed_patch_index L st cur ps i n)
       = (case first_unapplied L (st ! cur) ps i of Some k \<Rightarrow> int k | None \<Rightarrow> n - 1)"
proof (induction ps arbitrary: st cur i)
  case Nil
  then show ?case by simp
next
  case (Cons p ps)
  show ?case
  proof (cases "patch_apply L (st ! cur) [p]")
    case (Inl e)
    then show ?thesis by (simp add: json_patch_apply_def)
  next
    case (Inr v)
    have "fst (find_failed_patch_index L (st @ [v]) (length st) ps (i + 1) n)
            = (case first_unapplied L ((st @ [v]) ! length st) ps (i + 1) of
                 Some k \<Rightarrow> int k | None \<Rightarrow> n - 1)"
      by (rule Cons.IH) simp
    then show ?thesis using Inr by (simp add: json_patch_apply_def)
  qed
qed

text \<open>
  C3 at a concrete input. On the document \<^verbatim>\<open>{}\<close> the list
  \<^verbatim>\<open>[{"op":"add","path":"","value":5}, {"op":"add","path":"","value":6}]\<close> passes
  validation; the first operation applies (the root becomes 5) and the second cannot
  (\<^verbatim>\<open>TypeError\<close>, the root is no container), so the first operation that cannot be
  applied has index 1. The call reports index 0: the last \<^verbatim>\<open>except\<close> clause does not
  replay.
\<close>

theorem apply_patches_unexpected_error_index:
  "apply_patches ref_library [Obj []] 0 patches_root_twice
     = (Inr (PatchFailure (UnexpectedError ''invalid document type'') 0), [Obj []])
   \<and> first_unapplied ref_library (Obj []) patches_root_twice 0 = Some 1"
  by code_simp

section \<open>Search: termination and the limit\<close>

lemma value_match_length:
  "length m \<le> length (value_match P np v m) \<and> length (value_match P np v m) \<le> Suc (length m)"
  by (simp add: value_match_def split: gval.split)

lemma dict_item_match_length:
  "length m \<le> length (dict_item_match h P np k v m)
   \<and> length (dict_item_match h P np k v m) \<le> Suc (length m)"
  using value_match_length[of m P np v] by (simp add: dict_item_match_def)

lemma list_item_match_length:
  "length m \<le> length (list_item_match P np v m)
   \<and> length (list_item_match P np v m) \<le> Suc (length m)"
  using value_match_length[of m P np v] by (simp add: list_item_match_def)

lemma search_post_now: "search_post P m seen (Some (True, m, seen)) = (sa_limit P \<le> int (length m))"
  by (auto simp: search_post_def)

lemma search_post_done: "search_post P m seen (Some (False, m, seen))"
  by (simp add: search_post_def)

lemma search_post_seen: "search_post P m (insert i seen) res \<Longrightarrow> search_post P m seen res"
  by (auto simp: search_post_def split: option.splits)

lemma search_post_step:
  assumes "\<not> sa_limit P \<le> int (length m)"
    and "length m1 \<le> Suc (length m)"
    and "search_post P m1 seen res"
  shows "search_post P m seen res"
  using assms by (auto simp: search_post_def split: option.splits)

lemma search_post_trans:
  assumes "search_post P m seen (Some r)"
    and "search_post P (fst (snd r)) (snd (snd r)) res"
  shows "search_post P m seen res"
  using assms by (auto simp: search_post_def split: option.splits)

lemma search_post_flag:
  assumes "search_post P m seen (Some r)" and "fst r"
  shows "search_post P m seen (Some (True, snd r))"
  using assms by (auto simp: search_post_def)

lemma search_post_all:
  "search_post P matches seen (search_recursive n h P obj current_path matches seen)"
  "search_post P matches seen (search_dict n h P kvs current_path matches seen)"
  "search_post P matches seen (search_list n h P xs idx current_path matches seen)"
proof (induction n h P obj current_path matches seen
         and n h P kvs current_path matches seen
         and n h P xs idx current_path matches seen
       rule: search_recursive_search_dict_search_list.induct)
  case (1 h P obj current_path matches seen)
  show ?case by (simp add: search_post_def)
next
  case (2 n h P obj current_path matches seen)
  show ?case
  proof (cases "sa_limit P \<le> int (length matches)")
    case True
    then show ?thesis by (simp add: search_post_now)
  next
    case False
    show ?thesis
    proof (cases obj)
      case (GScalar v)
      with False show ?thesis by (simp add: search_post_done)
    next
      case (GRef i)
      show ?thesis
      proof (cases "i \<in> seen \<or> length h \<le> i")
        case True
        with False GRef show ?thesis by (auto simp: search_post_done)
      next
        case inner: False
        show ?thesis
        proof (cases "h ! i")
          case (GDict kvs)
          have "search_post P matches (insert i seen)
                  (search_dict n h P kvs current_path matches (insert i seen))"
            using 2(1)[OF False GRef _ _ GDict] inner by simp
          then show ?thesis using False GRef inner GDict
            by (simp add: search_post_seen)
        next
          case (GList xs)
          have "search_post P matches (insert i seen)
                  (search_list n h P xs 0 current_path matches (insert i seen))"
            using 2(2)[OF False GRef _ _ GList] inner by simp
          then show ?thesis using False GRef inner GList
            by (simp add: search_post_seen)
        qed
      qed
    qed
  qed
next
  case (3 n h P current_path matches seen)
  show ?case by (simp add: search_post_done)
next
  case (4 n h P item rest current_path matches seen)
  let ?np = "current_path @ ''/'' @ escape_pointer_token (fst item)"
  let ?m1 = "dict_item_match h P ?np (fst item) (snd item) matches"
  show ?case
  proof (cases "sa_limit P \<le> int (length matches)")
    case True
    then show ?thesis by (simp add: search_post_now)
  next
    case False
    have len: "length ?m1 \<le> Suc (length matches)"
      using dict_item_match_length by blast
    show ?thesis
    proof (cases "is_ref (snd item)")
      case ref: True
      have inner: "search_post P ?m1 seen (search_recursive n h P (snd item) ?np ?m1 seen)"
        using 4(1)[OF False ref] .
      show ?thesis
      proof (cases "search_recursive n h P (snd item) ?np ?m1 seen")
        case None
        with False ref show ?thesis by (simp add: search_post_def)
      next
        case (Some r)
        show ?thesis
        proof (cases "fst r")
          case True
          have "search_post P ?m1 seen (Some (True, snd r))"
            using search_post_flag inner Some True by metis
          then have "search_post P matches seen (Some (True, snd r))"
            using search_post_step[OF False len] by blast
          then show ?thesis using False ref Some True by simp
        next
          case nf: False
          have "search_post P (fst (snd r)) (snd (snd r))
                  (search_dict n h P rest current_path (fst (snd r)) (snd (snd r)))"
            using 4(2)[OF False ref Some nf] .
          then have "search_post P ?m1 seen
                  (search_dict n h P rest current_path (fst (snd r)) (snd (snd r)))"
            using search_post_trans inner Some by metis
          then have "search_post P matches seen
                  (search_dict n h P rest current_path (fst (snd r)) (snd (snd r)))"
            using search_post_step[OF False len] by blast
          then show ?thesis using False ref Some nf by simp
        qed
      qed
    next
      case nr: False
      have "search_post P ?m1 seen (search_dict n h P rest current_path ?m1 seen)"
        using 4(3)[OF False nr] .
      then have "search_post P matches seen (search_dict n h P rest current_path ?m1 seen)"
        using search_post_step[OF False len] by blast
      then show ?thesis using False nr by simp
    qed
  qed
next
  case (5 n h P idx current_path matches seen)
  show ?case by (simp add: search_post_done)
next
  case (6 n h P item rest idx current_path matches seen)
  let ?np = "current_path @ ''/'' @ show_nat idx"
  let ?m1 = "list_item_match P ?np item matches"
  show ?case
  proof (cases "sa_limit P \<le> int (length matches)")
    case True
    then show ?thesis by (simp add: search_post_now)
  next
    case False
    have len: "length ?m1 \<le> Suc (length matches)"
      using list_item_match_length by blast
    show ?thesis
    proof (cases "is_ref item")
      case ref: True
      have inner: "search_post P ?m1 seen (search_recursive n h P item ?np ?m1 seen)"
        using 6(1)[OF False ref] .
      show ?thesis
      proof (cases "search_recursive n h P item ?np ?m1 seen")
        case None
        with False ref show ?thesis by (simp add: search_post_def)
      next
        case (Some r)
        show ?thesis
        proof (cases "fst r")
          case True
          have "search_post P ?m1 seen (Some (True, snd r))"
            using search_post_flag inner Some True by metis
          then have "search_post P matches seen (Some (True, snd r))"
            using search_post_step[OF False len] by blast
          then show ?thesis using False ref Some True by simp
        next
          case nf: False
          have "search_post P (fst (snd r)) (snd (snd r))
                  (search_list n h P rest (idx + 1) current_path (fst (snd r)) (snd (snd r)))"
            using 6(2)[OF False ref Some nf] .
          then have "search_post P ?m1 seen
                  (search_list n h P rest (idx + 1) current_path (fst (snd r)) (snd (snd r)))"
            using search_post_trans inner Some by metis
          then have "search_post P matches seen
                  (search_list n h P rest (idx + 1) current_path (fst (snd r)) (snd (snd r)))"
            using search_post_step[OF False len] by blast
          then show ?thesis using False ref Some nf by simp
        qed
      qed
    next
      case nr: False
      have "search_post P ?m1 seen (search_list n h P rest (idx + 1) current_path ?m1 seen)"
        using 6(3)[OF False nr] .
      then have "search_post P matches seen
                   (search_list n h P rest (idx + 1) current_path ?m1 seen)"
        using search_post_step[OF False len] by blast
      then show ?thesis using False nr by simp
    qed
  qed
qed

lemma unseen_finite: "finite (unseen h seen)"
  by (simp add: unseen_def)

lemma unseen_insert_card:
  assumes "i < length h" and "i \<notin> seen" and "card (unseen h seen) < Suc n"
  shows "card (unseen h (insert i seen)) < n"
proof -
  have "unseen h (insert i seen) = unseen h seen - {i}"
    by (auto simp: unseen_def)
  moreover have "i \<in> unseen h seen" using assms(1,2) by (simp add: unseen_def)
  ultimately have "card (unseen h (insert i seen)) = card (unseen h seen) - 1"
    using unseen_finite by (metis card_Diff_singleton)
  moreover have "0 < card (unseen h seen)"
    using \<open>i \<in> unseen h seen\<close> unseen_finite by (metis card_gt_0_iff empty_iff)
  ultimately show ?thesis using assms(3) by linarith
qed

lemma unseen_mono_card:
  assumes "seen \<subseteq> seen'" and "card (unseen h seen) < n"
  shows "card (unseen h seen') < n"
proof -
  have "unseen h seen' \<subseteq> unseen h seen" using assms(1) by (auto simp: unseen_def)
  then have "card (unseen h seen') \<le> card (unseen h seen)"
    using unseen_finite by (metis card_mono)
  with assms(2) show ?thesis by linarith
qed

lemma search_enough_fuel:
  "card (unseen h seen) < n \<Longrightarrow> search_recursive n h P obj current_path matches seen \<noteq> None"
  "card (unseen h seen) < n \<Longrightarrow> search_dict n h P kvs current_path matches seen \<noteq> None"
  "card (unseen h seen) < n \<Longrightarrow> search_list n h P xs idx current_path matches seen \<noteq> None"
proof (induction n h P obj current_path matches seen
         and n h P kvs current_path matches seen
         and n h P xs idx current_path matches seen
       rule: search_recursive_search_dict_search_list.induct)
  case (1 h P obj current_path matches seen)
  then show ?case by simp
next
  case (2 n h P obj current_path matches seen)
  show ?case
  proof (cases "sa_limit P \<le> int (length matches)")
    case True
    then show ?thesis by simp
  next
    case False
    show ?thesis
    proof (cases obj)
      case (GScalar v)
      with False show ?thesis by simp
    next
      case (GRef i)
      show ?thesis
      proof (cases "i \<in> seen \<or> length h \<le> i")
        case True
        with False GRef show ?thesis by auto
      next
        case inner: False
        then have c: "card (unseen h (insert i seen)) < n"
          using unseen_insert_card[of i h seen n] "2.prems" by simp
        show ?thesis
        proof (cases "h ! i")
          case (GDict kvs)
          have "search_dict n h P kvs current_path matches (insert i seen) \<noteq> None"
            using 2(1)[OF False GRef _ _ GDict c] inner by simp
          then show ?thesis using False GRef inner GDict by simp
        next
          case (GList xs)
          have "search_list n h P xs 0 current_path matches (insert i seen) \<noteq> None"
            using 2(2)[OF False GRef _ _ GList c] inner by simp
          then show ?thesis using False GRef inner GList by simp
        qed
      qed
    qed
  qed
next
  case (3 n h P current_path matches seen)
  show ?case by simp
next
  case (4 n h P item rest current_path matches seen)
  let ?np = "current_path @ ''/'' @ escape_pointer_token (fst item)"
  let ?m1 = "dict_item_match h P ?np (fst item) (snd item) matches"
  show ?case
  proof (cases "sa_limit P \<le> int (length matches)")
    case True
    then show ?thesis by simp
  next
    case False
    show ?thesis
    proof (cases "is_ref (snd item)")
      case ref: True
      have "search_recursive n h P (snd item) ?np ?m1 seen \<noteq> None"
        using 4(1)[OF False ref "4.prems"] .
      then obtain r where r: "search_recursive n h P (snd item) ?np ?m1 seen = Some r"
        by blast
      have "search_post P ?m1 seen (Some r)"
        using search_post_all(1)[of P ?m1 seen n h "snd item" ?np] r by simp
      then have "seen \<subseteq> snd (snd r)" by (simp add: search_post_def)
      then have c: "card (unseen h (snd (snd r))) < n"
        using unseen_mono_card "4.prems" by blast
      show ?thesis
      proof (cases "fst r")
        case True
        then show ?thesis using False ref r by simp
      next
        case nf: False
        have "search_dict n h P rest current_path (fst (snd r)) (snd (snd r)) \<noteq> None"
          using 4(2)[OF False ref r nf c] .
        then show ?thesis using False ref r nf by simp
      qed
    next
      case nr: False
      have "search_dict n h P rest current_path ?m1 seen \<noteq> None"
        using 4(3)[OF False nr "4.prems"] .
      then show ?thesis using False nr by simp
    qed
  qed
next
  case (5 n h P idx current_path matches seen)
  show ?case by simp
next
  case (6 n h P item rest idx current_path matches seen)
  let ?np = "current_path @ ''/'' @ show_nat idx"
  let ?m1 = "list_item_match P ?np item matches"
  show ?case
  proof (cases "sa_limit P \<le> int (length matches)")
    case True
    then show ?thesis by simp
  next
    case False
    show ?thesis
    proof (cases "is_ref item")
      case ref: True
      have "search_recursive n h P item ?np ?m1 seen \<noteq> None"
        using 6(1)[OF False ref "6.prems"] .
      then obtain r where r: "search_recursive n h P item ?np ?m1 seen = Some r"
        by blast
      have "search_post P ?m1 seen (Some r)"
        using search_post_all(1)[of P ?m1 seen n h item ?np] r by simp
      then have "seen \<subseteq> snd (snd r)" by (simp add: search_post_def)
      then have c: "card (unseen h (snd (snd r))) < n"
        using unseen_mono_card "6.prems" by blast
      show ?thesis
      proof (cases "fst r")
        case True
        then show ?thesis using False ref r by simp
      next
        case nf: False
        have "search_list n h P rest (idx + 1) current_path (fst (snd r)) (snd (snd r)) \<noteq> None"
          using 6(2)[OF False ref r nf c] .
        then show ?thesis using False ref r nf by simp
      qed
    next
      case nr: False
      have "search_list n h P rest (idx + 1) current_path ?m1 seen \<noteq> None"
        using 6(3)[OF False nr "6.prems"] .
      then show ?thesis using False nr by simp
    qed
  qed
qed

lemma unseen_empty_card: "card (unseen h {}) = length h"
proof -
  have "unseen h {} = {..<length h}" by (auto simp: unseen_def)
  then show ?thesis by simp
qed

text \<open>
  A search that returns without the flag met no limit check, so it returns the same with
  any larger limit: nothing was cut.
\<close>

lemma item_match_limit_free:
  "dict_item_match h (P\<lparr>sa_limit := L\<rparr>) np k v m = dict_item_match h P np k v m"
  "list_item_match (P\<lparr>sa_limit := L\<rparr>) np v m = list_item_match P np v m"
  by (simp_all add: dict_item_match_def list_item_match_def value_match_def split: gval.split)

lemma search_unflagged_limit:
  "search_recursive n h P obj current_path matches seen = Some res \<Longrightarrow> \<not> fst res
     \<Longrightarrow> sa_limit P \<le> L
     \<Longrightarrow> search_recursive n h (P\<lparr>sa_limit := L\<rparr>) obj current_path matches seen = Some res"
  "search_dict n h P kvs current_path matches seen = Some res \<Longrightarrow> \<not> fst res
     \<Longrightarrow> sa_limit P \<le> L
     \<Longrightarrow> search_dict n h (P\<lparr>sa_limit := L\<rparr>) kvs current_path matches seen = Some res"
  "search_list n h P xs idx current_path matches seen = Some res \<Longrightarrow> \<not> fst res
     \<Longrightarrow> sa_limit P \<le> L
     \<Longrightarrow> search_list n h (P\<lparr>sa_limit := L\<rparr>) xs idx current_path matches seen = Some res"
proof (induction n h P obj current_path matches seen
         and n h P kvs current_path matches seen
         and n h P xs idx current_path matches seen
       arbitrary: res and res and res
       rule: search_recursive_search_dict_search_list.induct)
  case (1 h P obj current_path matches seen)
  then show ?case by simp
next
  case (2 n h P obj current_path matches seen)
  have nl: "\<not> sa_limit P \<le> int (length matches)"
    using "2.prems"(1,2) by (auto split: if_splits)
  then have nL: "\<not> L \<le> int (length matches)" using "2.prems"(3) by linarith
  show ?case
  proof (cases obj)
    case (GScalar v)
    then show ?thesis using "2.prems"(1) nl nL by simp
  next
    case (GRef i)
    show ?thesis
    proof (cases "i \<in> seen \<or> length h \<le> i")
      case True
      then show ?thesis using "2.prems"(1) nl nL GRef by (auto split: if_splits)
    next
      case inner: False
      show ?thesis
      proof (cases "h ! i")
        case (GDict kvs)
        have "search_dict n h P kvs current_path matches (insert i seen) = Some res"
          using "2.prems"(1) nl GRef inner GDict by simp
        then have "search_dict n h (P\<lparr>sa_limit := L\<rparr>) kvs current_path matches (insert i seen)
                     = Some res"
          using 2(1)[OF nl GRef _ _ GDict _ "2.prems"(2,3)] inner by simp
        then show ?thesis using nL GRef inner GDict by simp
      next
        case (GList xs)
        have "search_list n h P xs 0 current_path matches (insert i seen) = Some res"
          using "2.prems"(1) nl GRef inner GList by simp
        then have "search_list n h (P\<lparr>sa_limit := L\<rparr>) xs 0 current_path matches (insert i seen)
                     = Some res"
          using 2(2)[OF nl GRef _ _ GList _ "2.prems"(2,3)] inner by simp
        then show ?thesis using nL GRef inner GList by simp
      qed
    qed
  qed
next
  case (3 n h P current_path matches seen)
  then show ?case by simp
next
  case (4 n h P item rest current_path matches seen)
  let ?np = "current_path @ ''/'' @ escape_pointer_token (fst item)"
  let ?m1 = "dict_item_match h P ?np (fst item) (snd item) matches"
  have nl: "\<not> sa_limit P \<le> int (length matches)"
    using "4.prems"(1,2) by (auto split: if_splits)
  then have nL: "\<not> L \<le> int (length matches)" using "4.prems"(3) by linarith
  show ?case
  proof (cases "is_ref (snd item)")
    case ref: True
    obtain r where r: "search_recursive n h P (snd item) ?np ?m1 seen = Some r"
      using "4.prems"(1) nl ref by (auto split: option.splits)
    have nf: "\<not> fst r" using "4.prems"(1,2) nl ref r by (auto split: if_splits)
    have r': "search_recursive n h (P\<lparr>sa_limit := L\<rparr>) (snd item) ?np ?m1 seen = Some r"
      using 4(1)[OF nl ref r nf "4.prems"(3)] .
    have "search_dict n h P rest current_path (fst (snd r)) (snd (snd r)) = Some res"
      using "4.prems"(1) nl ref r nf by simp
    then have "search_dict n h (P\<lparr>sa_limit := L\<rparr>) rest current_path (fst (snd r)) (snd (snd r))
                 = Some res"
      using 4(2)[OF nl ref r nf _ "4.prems"(2,3)] by simp
    then show ?thesis using nL ref r' nf by (simp add: item_match_limit_free)
  next
    case nr: False
    have "search_dict n h P rest current_path ?m1 seen = Some res"
      using "4.prems"(1) nl nr by simp
    then have "search_dict n h (P\<lparr>sa_limit := L\<rparr>) rest current_path ?m1 seen = Some res"
      using 4(3)[OF nl nr _ "4.prems"(2,3)] by simp
    then show ?thesis using nL nr by (simp add: item_match_limit_free)
  qed
next
  case (5 n h P idx current_path matches seen)
  then show ?case by simp
next
  case (6 n h P item rest idx current_path matches seen)
  let ?np = "current_path @ ''/'' @ show_nat idx"
  let ?m1 = "list_item_match P ?np item matches"
  have nl: "\<not> sa_limit P \<le> int (length matches)"
    using "6.prems"(1,2) by (auto split: if_splits)
  then have nL: "\<not> L \<le> int (length matches)" using "6.prems"(3) by linarith
  show ?case
  proof (cases "is_ref item")
    case ref: True
    obtain r where r: "search_recursive n h P item ?np ?m1 seen = Some r"
      using "6.prems"(1) nl ref by (auto split: option.splits)
    have nf: "\<not> fst r" using "6.prems"(1,2) nl ref r by (auto split: if_splits)
    have r': "search_recursive n h (P\<lparr>sa_limit := L\<rparr>) item ?np ?m1 seen = Some r"
      using 6(1)[OF nl ref r nf "6.prems"(3)] .
    have "search_list n h P rest (idx + 1) current_path (fst (snd r)) (snd (snd r)) = Some res"
      using "6.prems"(1) nl ref r nf by simp
    then have "search_list n h (P\<lparr>sa_limit := L\<rparr>) rest (idx + 1) current_path
                 (fst (snd r)) (snd (snd r)) = Some res"
      using 6(2)[OF nl ref r nf _ "6.prems"(2,3)] by simp
    then show ?thesis using nL ref r' nf by (simp add: item_match_limit_free)
  next
    case nr: False
    have "search_list n h P rest (idx + 1) current_path ?m1 seen = Some res"
      using "6.prems"(1) nl nr by simp
    then have "search_list n h (P\<lparr>sa_limit := L\<rparr>) rest (idx + 1) current_path ?m1 seen
                 = Some res"
      using 6(3)[OF nl nr _ "6.prems"(2,3)] by simp
    then show ?thesis using nL nr by (simp add: item_match_limit_free)
  qed
qed

text \<open>
  C6, as the code has it. On every heap, cyclic or not, and for every query, search type,
  fuzzy flag and limit, the search ends: fuel beyond the number of nodes always gives a
  result. \<open>count\<close> is the number of matches; for a limit that is not negative it is at
  most the limit; \<open>truncated\<close> is raised only with at least \<open>limit\<close> matches, and a result
  without it is the result for every larger limit.
\<close>

theorem search_pointer_terminates_bounded:
  assumes "length h < fuel"
  shows "\<exists>r. search_pointer fuel h document query search_type fuzzy_match limit max_value_length
               = Some r
           \<and> sr_count r = length (sr_matches r)
           \<and> (0 \<le> limit \<longrightarrow> int (sr_count r) \<le> limit)
           \<and> (sr_truncated r \<longrightarrow> limit \<le> int (sr_count r))
           \<and> (\<not> sr_truncated r \<longrightarrow>
                (\<forall>L \<ge> limit. search_pointer fuel h document query search_type fuzzy_match L
                               max_value_length = Some r))"
proof -
  let ?P = "\<lparr>sa_query = query, sa_search_type = search_type, sa_fuzzy = fuzzy_match,
             sa_limit = limit, sa_max_value_length = max_value_length\<rparr>"
  have "card (unseen h {}) < fuel" using assms by (simp add: unseen_empty_card)
  then have "search_recursive fuel h ?P document [] [] {} \<noteq> None"
    by (rule search_enough_fuel(1))
  then obtain res where res: "search_recursive fuel h ?P document [] [] {} = Some res"
    by blast
  obtain t m s where tms: "res = (t, m, s)" by (cases res) auto
  let ?r = "\<lparr>sr_query = query, sr_type = search_type, sr_fuzzy = fuzzy_match,
             sr_matches = m, sr_count = length m, sr_truncated = t\<rparr>"
  have run: "search_pointer fuel h document query search_type fuzzy_match limit max_value_length
               = Some ?r"
    using res tms by (simp add: search_pointer_def)
  have post: "search_post ?P [] {} (Some res)"
    using search_post_all(1)[of ?P "[]" "{}" fuel h document "[]"] res by simp
  have b: "0 \<le> limit \<longrightarrow> int (length m) \<le> limit"
    using post tms by (simp add: search_post_def)
  have c: "t \<longrightarrow> limit \<le> int (length m)"
    using post tms by (simp add: search_post_def)
  have d: "\<not> t \<longrightarrow> (\<forall>L \<ge> limit. search_pointer fuel h document query search_type fuzzy_match L
                               max_value_length = Some ?r)"
  proof (intro impI allI)
    fix L assume nt: "\<not> t" and L: "limit \<le> L"
    have "search_recursive fuel h (?P\<lparr>sa_limit := L\<rparr>) document [] [] {} = Some res"
      using search_unflagged_limit(1)[OF res, of L] nt tms L by simp
    then show "search_pointer fuel h document query search_type fuzzy_match L max_value_length
                 = Some ?r"
      using tms by (simp add: search_pointer_def)
  qed
  show ?thesis
    by (rule exI[of _ ?r]) (use run b c d in simp)
qed

lemma cyclic_search_run:
  "search_pointer 2 cyclic_heap (GRef 0) ''client x'' ''value'' True 20 120
     = Some \<lparr>sr_query = ''client x'', sr_type = ''value'', sr_fuzzy = True,
             sr_matches = [ValueMatch ''/name'' ''Client X Corp''], sr_count = 1,
             sr_truncated = False\<rparr>"
  by code_simp

theorem search_pointer_terminates_bounded_witness:
  "length cyclic_heap < 2
   \<and> search_pointer 2 cyclic_heap (GRef 0) ''client x'' ''value'' True 20 120
       = Some \<lparr>sr_query = ''client x'', sr_type = ''value'', sr_fuzzy = True,
               sr_matches = [ValueMatch ''/name'' ''Client X Corp''], sr_count = 1,
               sr_truncated = False\<rparr>
   \<and> search_pointer 2 cyclic_heap (GRef 0) ''client x'' ''value'' True 25 120
       = Some \<lparr>sr_query = ''client x'', sr_type = ''value'', sr_fuzzy = True,
               sr_matches = [ValueMatch ''/name'' ''Client X Corp''], sr_count = 1,
               sr_truncated = False\<rparr>"
proof -
  have l: "length cyclic_heap < 2" by (simp add: cyclic_heap_def)
  note run = cyclic_search_run
  from search_pointer_terminates_bounded[OF l, of "GRef 0" "''client x''" "''value''" True 20 120]
  obtain r where r: "search_pointer 2 cyclic_heap (GRef 0) ''client x'' ''value'' True 20 120 = Some r"
    and rest: "\<not> sr_truncated r \<longrightarrow>
                (\<forall>L \<ge> 20. search_pointer 2 cyclic_heap (GRef 0) ''client x'' ''value'' True L 120
                   = Some r)"
    by blast
  have req: "r = \<lparr>sr_query = ''client x'', sr_type = ''value'', sr_fuzzy = True,
               sr_matches = [ValueMatch ''/name'' ''Client X Corp''], sr_count = 1,
               sr_truncated = False\<rparr>"
    using r run by simp
  have "\<not> sr_truncated r" by (simp add: req)
  with rest have "search_pointer 2 cyclic_heap (GRef 0) ''client x'' ''value'' True 25 120
                   = Some r" by simp
  with l run req show ?thesis by simp
qed

text \<open>
  The claim as stated fails for a negative limit: the first check returns at once, with
  no match and the flag raised, and 0 matches are more than \<open>-1\<close>.
\<close>

theorem search_pointer_negative_limit_counterexample:
  "search_pointer 2 two_leaves_heap (GRef 0) ''x'' ''value'' False (- 1) 120
     = Some \<lparr>sr_query = ''x'', sr_type = ''value'', sr_fuzzy = False, sr_matches = [],
             sr_count = 0, sr_truncated = True\<rparr>
   \<and> \<not> int 0 \<le> - 1"
  by code_simp

section \<open>Tool dispatcher: the finalization gate\<close>

lemma run_actions_append:
  "run_actions L d (xs @ ys) =
     bind_exn (run_actions L d xs) (\<lambda>r1.
       bind_exn (run_actions L (fst r1) ys) (\<lambda>r2. Inr (fst r2, snd r1 @ snd r2)))"
proof (induction xs arbitrary: d)
  case Nil
  show ?case by (cases "run_actions L d ys") (simp_all add: bind_exn_def)
next
  case (Cons x xs)
  show ?case
  proof (cases "process_action L d x")
    case (Inl e)
    then show ?thesis by (simp add: bind_exn_def)
  next
    case (Inr p)
    obtain d1 r where p: "p = (d1, r)" by (cases p) auto
    show ?thesis
      using Inr p Cons.IH[of d1]
      by (simp add: bind_exn_def split: sum.splits prod.splits)
  qed
qed

lemma process_update_guidance:
  "kw kvs ''action'' JNull = JStr ''update_guidance'' \<Longrightarrow>
     process_action L d (Obj kvs)
       = Inr (d, action_entry (JStr ''update_guidance'') (kw kvs ''input'' (Obj [])) MustBeOnlyAction)"
  by (simp add: process_action_def dispatch_def)

lemma run_actions_mixed:
  assumes "kw kvs ''action'' JNull = JStr ''update_guidance''"
  shows "run_actions L d (xs @ Obj kvs # ys) =
     bind_exn (run_actions L d xs) (\<lambda>r1.
       bind_exn (run_actions L (fst r1) ys) (\<lambda>r2.
         Inr (fst r2,
              snd r1
              @ action_entry (JStr ''update_guidance'') (kw kvs ''input'' (Obj [])) MustBeOnlyAction
              # snd r2)))"
proof -
  have one: "run_actions L d' (Obj kvs # ys) =
      bind_exn (run_actions L d' ys) (\<lambda>r2.
        Inr (fst r2,
             action_entry (JStr ''update_guidance'') (kw kvs ''input'' (Obj [])) MustBeOnlyAction
             # snd r2))" for d'
    using process_update_guidance[OF assms, of L d']
    by (simp add: bind_exn_def split: sum.splits prod.splits)
  show ?thesis
    unfolding run_actions_append[of L d xs "Obj kvs # ys"] one
    by (simp add: bind_exn_def split: sum.splits)
qed

lemma execute_tools_on_actions:
  assumes "last_ai_message (messages state) = Some (Parsed (Obj reply))"
    and "kw reply ''actions'' (Arr []) = Arr actions"
    and "actions \<noteq> []"
  shows "execute_tools_node L state = execute_actions L state actions"
  using assms by (simp add: execute_tools_node_def Let_def)

lemma finalize_turn_valid:
  assumes "kw kvs ''input'' (Obj []) = Obj ikvs"
    and "list_all (\<lambda>kv. fst kv \<in> set guidance_params) ikvs"
  shows "finalize_turn (Obj kvs) =
     Inr (no_update
            \<lparr>u_guidance := Some (new_guidance ikvs),
             u_is_chunk_finalized := Some True,
             u_actions_results :=
               Some [\<lparr>ar_action = JStr ''update_guidance'', ar_input = None,
                      ar_result = GuidanceOut (Obj [(''finalized'', JBool True),
                                                    (''guidance'', new_guidance ikvs)])\<rparr>]\<rparr>)"
  using assms
  by (simp add: finalize_turn_def call_update_guidance_def bind_exn_def update_guidance_def
        new_guidance_def kw_def)

lemma execute_actions_not_sole:
  assumes "is_sole_update_guidance actions = Inr False"
    and "execute_actions L state actions = Inr u"
  shows "u_is_chunk_finalized u = None \<and> u_guidance u = None \<and> u_error u = None
         \<and> (\<exists>d rs. run_actions L (json_document state) actions = Inr (d, rs)
                \<and> u_json_document u = Some d \<and> u_actions_results u = Some rs)"
proof (cases "run_actions L (json_document state) actions")
  case (Inl e)
  with assms show ?thesis by (simp add: execute_actions_def bind_exn_def)
next
  case (Inr r)
  obtain d rs where r: "r = (d, rs)" by (cases r) auto
  have "u = no_update\<lparr>u_json_document := Some d, u_actions_results := Some rs\<rparr>"
    using assms Inr r by (simp add: execute_actions_def bind_exn_def)
  then show ?thesis using Inr r by (simp add: no_update_def)
qed

text \<open>
  C1. On a turn whose reply parsed to an object with a non-empty \<^verbatim>\<open>actions\<close> list:
  \<^item> if the list is one \<^verbatim>\<open>update_guidance\<close> action, with an input the function accepts,
    the node returns the guidance built from that input and \<open>is_chunk_finalized = True\<close>,
    and does not return a document;
  \<^item> if the list is anything else and the node returns, the update sets neither
    \<open>is_chunk_finalized\<close> nor \<open>guidance\<close> nor \<open>error\<close>; the document and the results
    are those of the loop over the actions;
  \<^item> in that loop an \<^verbatim>\<open>update_guidance\<close> action between actions \<open>xs\<close> and \<open>ys\<close> adds the
    entry \<open>MustBeOnlyAction\<close> and nothing else: \<open>ys\<close> run on the document \<open>xs\<close> left, and
    the results are those of \<open>xs\<close>, the entry, and those of \<open>ys\<close>, in this order.
\<close>

theorem execute_tools_finalization_gate:
  assumes "last_ai_message (messages state) = Some (Parsed (Obj reply))"
    and "kw reply ''actions'' (Arr []) = Arr actions"
    and "actions \<noteq> []"
  shows "(\<forall>kvs ikvs.
            actions = [Obj kvs] \<and> kw kvs ''action'' JNull = JStr ''update_guidance''
            \<and> kw kvs ''input'' (Obj []) = Obj ikvs
            \<and> list_all (\<lambda>kv. fst kv \<in> set guidance_params) ikvs
            \<longrightarrow> execute_tools_node L state =
                  Inr (no_update
                         \<lparr>u_guidance := Some (new_guidance ikvs),
                          u_is_chunk_finalized := Some True,
                          u_actions_results :=
                            Some [\<lparr>ar_action = JStr ''update_guidance'', ar_input = None,
                                   ar_result = GuidanceOut
                                     (Obj [(''finalized'', JBool True),
                                           (''guidance'', new_guidance ikvs)])\<rparr>]\<rparr>))
       \<and> (\<forall>u. is_sole_update_guidance actions = Inr False
               \<and> execute_tools_node L state = Inr u
            \<longrightarrow> u_is_chunk_finalized u = None \<and> u_guidance u = None \<and> u_error u = None
                \<and> (\<exists>d rs. run_actions L (json_document state) actions = Inr (d, rs)
                       \<and> u_json_document u = Some d \<and> u_actions_results u = Some rs))
       \<and> (\<forall>xs kvs ys d.
            kw kvs ''action'' JNull = JStr ''update_guidance''
            \<longrightarrow> run_actions L d (xs @ Obj kvs # ys) =
                  bind_exn (run_actions L d xs) (\<lambda>r1.
                    bind_exn (run_actions L (fst r1) ys) (\<lambda>r2.
                      Inr (fst r2,
                           snd r1
                           @ action_entry (JStr ''update_guidance'') (kw kvs ''input'' (Obj []))
                               MustBeOnlyAction
                           # snd r2))))"
proof (intro conjI allI impI)
  fix kvs ikvs
  assume a: "actions = [Obj kvs] \<and> kw kvs ''action'' JNull = JStr ''update_guidance''
            \<and> kw kvs ''input'' (Obj []) = Obj ikvs
            \<and> list_all (\<lambda>kv. fst kv \<in> set guidance_params) ikvs"
  have "execute_actions L state actions = finalize_turn (Obj kvs)"
    using a by (simp add: execute_actions_def is_sole_update_guidance_def bind_exn_def)
  then show "execute_tools_node L state =
                  Inr (no_update
                         \<lparr>u_guidance := Some (new_guidance ikvs),
                          u_is_chunk_finalized := Some True,
                          u_actions_results :=
                            Some [\<lparr>ar_action = JStr ''update_guidance'', ar_input = None,
                                   ar_result = GuidanceOut
                                     (Obj [(''finalized'', JBool True),
                                           (''guidance'', new_guidance ikvs)])\<rparr>]\<rparr>)"
    using execute_tools_on_actions[OF assms] finalize_turn_valid[of kvs ikvs] a by simp
next
  fix u
  assume b: "is_sole_update_guidance actions = Inr False \<and> execute_tools_node L state = Inr u"
  then have "execute_actions L state actions = Inr u"
    using execute_tools_on_actions[OF assms, of L] by simp
  with b execute_actions_not_sole[of actions L state u]
  have r: "u_is_chunk_finalized u = None \<and> u_guidance u = None \<and> u_error u = None
         \<and> (\<exists>d rs. run_actions L (json_document state) actions = Inr (d, rs)
                \<and> u_json_document u = Some d \<and> u_actions_results u = Some rs)" by blast
  from r show "u_is_chunk_finalized u = None" by blast
  from r show "u_guidance u = None" by blast
  from r show "u_error u = None" by blast
  from r show "\<exists>d rs. run_actions L (json_document state) actions = Inr (d, rs)
                \<and> u_json_document u = Some d \<and> u_actions_results u = Some rs" by blast
next
  fix xs kvs ys d
  assume "kw kvs ''action'' JNull = JStr ''update_guidance''"
  then show "run_actions L d (xs @ Obj kvs # ys) =
                  bind_exn (run_actions L d xs) (\<lambda>r1.
                    bind_exn (run_actions L (fst r1) ys) (\<lambda>r2.
                      Inr (fst r2,
                           snd r1
                           @ action_entry (JStr ''update_guidance'') (kw kvs ''input'' (Obj []))
                               MustBeOnlyAction
                           # snd r2)))"
    by (rule run_actions_mixed)
qed

lemma mixed_state_run: "execute_tools_node ref_library mixed_state = Inr mixed_update"
  by code_simp

theorem execute_tools_finalization_gate_witness:
  "execute_tools_node ref_library finalize_state =
     Inr (no_update
            \<lparr>u_guidance := Some (new_guidance [(''pending_action'', JStr ''expect_total'')]),
             u_is_chunk_finalized := Some True,
             u_actions_results :=
               Some [\<lparr>ar_action = JStr ''update_guidance'', ar_input = None,
                      ar_result = GuidanceOut
                        (Obj [(''finalized'', JBool True),
                              (''guidance'',
                               new_guidance [(''pending_action'', JStr ''expect_total'')])])\<rparr>]\<rparr>)
   \<and> execute_tools_node ref_library mixed_state = Inr mixed_update
   \<and> u_is_chunk_finalized mixed_update = None
   \<and> u_guidance mixed_update = None"
proof -
  let ?reply1 = "[(''think'', JStr ''...''), (''actions'', Arr [finalize_action])]"
  let ?kvs = "[(''action'', JStr ''update_guidance''),
               (''input'', Obj [(''pending_action'', JStr ''expect_total'')])]"
  let ?ikvs = "[(''pending_action'', JStr ''expect_total'')]"
  have a1: "last_ai_message (messages finalize_state) = Some (Parsed (Obj ?reply1))"
    by (simp add: finalize_state_def state0_def turn_of_def)
  have a2: "kw ?reply1 ''actions'' (Arr []) = Arr [finalize_action]"
    by (simp add: kw_def)
  have a3: "[finalize_action] \<noteq> []" by simp
  have h: "[finalize_action] = [Obj ?kvs] \<and> kw ?kvs ''action'' JNull = JStr ''update_guidance''
            \<and> kw ?kvs ''input'' (Obj []) = Obj ?ikvs
            \<and> list_all (\<lambda>kv. fst kv \<in> set guidance_params) ?ikvs"
    by (simp add: finalize_action_def kw_def guidance_params_def)
  have w1: "execute_tools_node ref_library finalize_state =
     Inr (no_update
            \<lparr>u_guidance := Some (new_guidance ?ikvs),
             u_is_chunk_finalized := Some True,
             u_actions_results :=
               Some [\<lparr>ar_action = JStr ''update_guidance'', ar_input = None,
                      ar_result = GuidanceOut
                        (Obj [(''finalized'', JBool True),
                              (''guidance'', new_guidance ?ikvs)])\<rparr>]\<rparr>)"
    using execute_tools_finalization_gate[OF a1 a2 a3, of ref_library] h by blast
  let ?reply2 = "[(''think'', JStr ''...''), (''actions'', Arr [finalize_action, patch_action])]"
  have b1: "last_ai_message (messages mixed_state) = Some (Parsed (Obj ?reply2))"
    by (simp add: mixed_state_def state0_def turn_of_def)
  have b2: "kw ?reply2 ''actions'' (Arr []) = Arr [finalize_action, patch_action]"
    by (simp add: kw_def)
  have b3: "[finalize_action, patch_action] \<noteq> []" by simp
  have sole: "is_sole_update_guidance [finalize_action, patch_action] = Inr False"
    by (simp add: is_sole_update_guidance_def)
  have w2: "u_is_chunk_finalized mixed_update = None \<and> u_guidance mixed_update = None"
    using execute_tools_finalization_gate[OF b1 b2 b3, of ref_library] sole mixed_state_run
    by blast
  from w1 mixed_state_run w2 show ?thesis by blast
qed

section \<open>Orchestrator: errors and the iteration cap\<close>

lemma apply_update_error_set:
  "u_error u = Some e \<Longrightarrow> error (apply_update E u s) = Some e"
  by (simp add: apply_update_def)

lemma apply_update_error_kept:
  "u_error u = None \<Longrightarrow> error (apply_update E u s) = error s"
  by (simp add: apply_update_def)

lemma apply_update_llm_calls: "llm_calls (apply_update E u s) = llm_calls s"
  by (simp add: apply_update_def)

lemma apply_update_document_kept:
  "u_json_document u = None \<Longrightarrow> json_document (apply_update E u s) = json_document s"
  by (simp add: apply_update_def opt_def)

lemma steps_End: "steps k E L (End, s) = Inr (End, s)"
  by (induction k) (simp_all add: step_def bind_exn_def)

lemma steps_add: "steps (a + b) E L c = bind_exn (steps a E L c) (steps b E L)"
proof (induction a arbitrary: c)
  case 0
  show ?case by (simp add: bind_exn_def)
next
  case (Suc a)
  show ?case
    by (cases "step E L c") (simp_all add: bind_exn_def Suc.IH)
qed

lemma is_chunk_done_error:
  "error s = Some e \<Longrightarrow> e \<noteq> [] \<Longrightarrow> is_chunk_done s = FinalizeChunk"
  by (simp add: is_chunk_done_def)

lemma has_more_chunks_error:
  "error s = Some e \<Longrightarrow> e \<noteq> [] \<Longrightarrow> has_more_chunks s = End"
  by (simp add: has_more_chunks_def)

lemma error_halts:
  assumes "execute_tools_node L state = Inr u" and "u_error u = Some e" and "e \<noteq> []"
    and "u_json_document u = None"
  shows "\<exists>s'. steps 3 E L (ExecuteTools, state) = Inr (End, s')
           \<and> error s' = Some e \<and> llm_calls s' = llm_calls state
           \<and> json_document s' = json_document state"
proof -
  let ?s1 = "apply_update E u state"
  let ?s2 = "apply_update E (finalize_chunk_node ?s1) ?s1"
  let ?s3 = "apply_update E (prepare_chunk_node E ?s2) ?s2"
  have e1: "error ?s1 = Some e" using assms(2) by (rule apply_update_error_set)
  have e2: "error ?s2 = Some e"
    using e1 by (simp add: apply_update_error_kept finalize_chunk_node_def no_update_def)
  have pe: "u_error (prepare_chunk_node E ?s2) = None"
    by (simp add: prepare_chunk_node_def no_update_def Let_def)
  have e3: "error ?s3 = Some e" using e2 pe by (simp add: apply_update_error_kept)
  have st1: "step E L (ExecuteTools, state) = Inr (FinalizeChunk, ?s1)"
    using assms(1) is_chunk_done_error[OF e1 assms(3)] by (simp add: step_def bind_exn_def Let_def)
  have st2: "step E L (FinalizeChunk, ?s1) = Inr (PrepareChunk, ?s2)"
    by (simp add: step_def)
  have st3: "step E L (PrepareChunk, ?s2) = Inr (End, ?s3)"
    using has_more_chunks_error[OF e3 assms(3)] by (simp add: step_def Let_def)
  have run: "steps 3 E L (ExecuteTools, state) = Inr (End, ?s3)"
    using st1 st2 st3 by (simp add: numeral_3_eq_3 bind_exn_def)
  have pd: "u_json_document (prepare_chunk_node E ?s2) = None"
    by (simp add: prepare_chunk_node_def no_update_def Let_def)
  have fd: "u_json_document (finalize_chunk_node ?s1) = None"
    by (simp add: finalize_chunk_node_def no_update_def)
  have d: "json_document ?s3 = json_document state"
    using pd fd assms(4) by (simp add: apply_update_document_kept)
  have c: "llm_calls ?s3 = llm_calls state" by (simp add: apply_update_llm_calls)
  from run e3 c d show ?thesis by blast
qed

text \<open>
  C9. When the reply parsed to an object whose \<^verbatim>\<open>actions\<close> is missing or empty, the
  dispatcher returns the error \<^verbatim>\<open>No actions specified by the LLM.\<close> and nothing else,
  and the graph ends three steps later (the chunk is finalized, the next one is prepared,
  and the routing sees the error): the final state carries the error, the model was not
  called again, and the document is as it was. Further steps stay at the end.
\<close>

theorem no_actions_halts_run:
  assumes "last_ai_message (messages state) = Some (Parsed (Obj reply))"
    and "\<not> truthy (kw reply ''actions'' (Arr []))"
  shows "execute_tools_node L state = Inr (no_update\<lparr>u_error := Some no_actions_message\<rparr>)
       \<and> (\<exists>s'. steps 3 E L (ExecuteTools, state) = Inr (End, s')
              \<and> error s' = Some no_actions_message
              \<and> llm_calls s' = llm_calls state
              \<and> json_document s' = json_document state
              \<and> (\<forall>k. steps (3 + k) E L (ExecuteTools, state) = Inr (End, s')))"
proof -
  let ?u = "no_update\<lparr>u_error := Some no_actions_message\<rparr>"
  have run: "execute_tools_node L state = Inr ?u"
    using assms by (simp add: execute_tools_node_def Let_def no_actions_message_def)
  have ue: "u_error ?u = Some no_actions_message" by simp
  have ne: "no_actions_message \<noteq> []" by (simp add: no_actions_message_def)
  have ud: "u_json_document ?u = None" by (simp add: no_update_def)
  from error_halts[OF run ue ne ud, of E]
  obtain s' where s': "steps 3 E L (ExecuteTools, state) = Inr (End, s')"
    "error s' = Some no_actions_message" "llm_calls s' = llm_calls state"
    "json_document s' = json_document state" by blast
  have "\<forall>k. steps (3 + k) E L (ExecuteTools, state) = Inr (End, s')"
    using s'(1) by (simp add: steps_add bind_exn_def steps_End)
  with run s' show ?thesis by blast
qed

theorem no_actions_halts_run_witness:
  "last_ai_message (messages empty_turn_state)
     = Some (Parsed (Obj [(''think'', JStr ''...''), (''actions'', Arr [])]))
   \<and> execute_tools_node ref_library empty_turn_state
       = Inr (no_update\<lparr>u_error := Some no_actions_message\<rparr>)
   \<and> fst (projr (steps 3 stubborn_env ref_library (ExecuteTools, empty_turn_state))) = End
   \<and> error (snd (projr (steps 3 stubborn_env ref_library (ExecuteTools, empty_turn_state))))
       = Some no_actions_message
   \<and> llm_calls (snd (projr (steps 3 stubborn_env ref_library (ExecuteTools, empty_turn_state))))
       = 0
   \<and> current_chunk_idx (snd (projr (steps 3 stubborn_env ref_library
                                      (ExecuteTools, empty_turn_state)))) = 1"
proof -
  let ?reply = "[(''think'', JStr ''...''), (''actions'', Arr [])]"
  have a1: "last_ai_message (messages empty_turn_state) = Some (Parsed (Obj ?reply))"
    by (simp add: empty_turn_state_def state0_def turn_of_def)
  have a2: "\<not> truthy (kw ?reply ''actions'' (Arr []))" by (simp add: kw_def)
  from no_actions_halts_run[OF a1 a2, of ref_library stubborn_env]
  obtain s' where run: "execute_tools_node ref_library empty_turn_state
                          = Inr (no_update\<lparr>u_error := Some no_actions_message\<rparr>)"
    and s': "steps 3 stubborn_env ref_library (ExecuteTools, empty_turn_state) = Inr (End, s')"
      "error s' = Some no_actions_message" "llm_calls s' = llm_calls empty_turn_state"
    by blast
  have idx: "current_chunk_idx (snd (projr (steps 3 stubborn_env ref_library
                                      (ExecuteTools, empty_turn_state)))) = 1"
    by code_simp
  have "llm_calls empty_turn_state = 0" by (simp add: empty_turn_state_def state0_def)
  with a1 run s' idx show ?thesis by simp
qed

lemma execute_tools_update_keys:
  assumes "execute_tools_node L s = Inr u"
  shows "u_iteration_count u = None \<and> u_max_iterations u = None
         \<and> u_current_chunk_idx u = None \<and> u_chunks u = None"
proof (cases "last_ai_message (messages s)")
  case None
  then show ?thesis using assms by (auto simp: execute_tools_node_def no_update_def)
next
  case (Some c)
  show ?thesis
  proof (cases c)
    case (Unparsable e)
    then show ?thesis using assms Some by (auto simp: execute_tools_node_def no_update_def)
  next
    case (Parsed d)
    show ?thesis
    proof (cases d)
      case (Obj kvs)
      show ?thesis
      proof (cases "truthy (kw kvs ''actions'' (Arr []))")
        case False
        then show ?thesis using assms Some Parsed Obj
          by (auto simp: execute_tools_node_def no_update_def Let_def)
      next
        case True
        then obtain xs where xs: "kw kvs ''actions'' (Arr []) = Arr xs"
          and ex: "execute_actions L s xs = Inr u"
          using assms Some Parsed Obj
          by (auto simp: execute_tools_node_def Let_def split: json.splits)
        show ?thesis
        proof (cases "is_sole_update_guidance xs")
          case (Inl e)
          then show ?thesis using ex by (simp add: execute_actions_def bind_exn_def)
        next
          case (Inr sole)
          show ?thesis
          proof (cases sole)
            case True
            then have "finalize_turn (hd xs) = Inr u"
              using ex Inr by (simp add: execute_actions_def bind_exn_def)
            then show ?thesis
              by (auto simp: finalize_turn_def bind_exn_def no_update_def
                    split: json.splits sum.splits)
          next
            case False
            then show ?thesis using ex Inr
              by (auto simp: execute_actions_def bind_exn_def no_update_def split: sum.splits)
          qed
        qed
      qed
    qed (use assms Some Parsed in \<open>auto simp: execute_tools_node_def\<close>)
  qed
qed

lemma after_call_fields:
  "iteration_count (after_call E s) = iteration_count s + 1"
  "llm_calls (after_call E s) = llm_calls s + 1"
  "max_iterations (after_call E s) = max_iterations s"
  "is_chunk_finalized (after_call E s) = is_chunk_finalized s"
  "error (after_call E s) = error s"
  "current_chunk_idx (after_call E s) = current_chunk_idx s"
  "chunks (after_call E s) = chunks s"
  by (simp_all add: after_call_def apply_update_def call_llm_node_def no_update_def opt_def Let_def)

lemma step_call: "step E L (CallLlm, s) = Inr (ExecuteTools, after_call E s)"
  by (simp add: step_def after_call_def)

lemma quiet_update_fields:
  assumes "execute_tools_node L s1 = Inr u" and "u_error u = None"
    and "u_is_chunk_finalized u = None"
  shows "iteration_count (apply_update E u s1) = iteration_count s1"
    and "llm_calls (apply_update E u s1) = llm_calls s1"
    and "max_iterations (apply_update E u s1) = max_iterations s1"
    and "is_chunk_finalized (apply_update E u s1) = is_chunk_finalized s1"
    and "error (apply_update E u s1) = error s1"
    and "current_chunk_idx (apply_update E u s1) = current_chunk_idx s1"
    and "chunks (apply_update E u s1) = chunks s1"
  using assms execute_tools_update_keys[OF assms(1)]
  by (simp_all add: apply_update_def opt_def)

lemma step_execute:
  "execute_tools_node L s1 = Inr u \<Longrightarrow>
   step E L (ExecuteTools, s1) = Inr (is_chunk_done (apply_update E u s1), apply_update E u s1)"
  by (simp add: step_def bind_exn_def Let_def)

lemma steps_two:
  "step E L c = Inr c1 \<Longrightarrow> step E L c1 = Inr c2 \<Longrightarrow> steps (2 + j) E L c = steps j E L c2"
  by (simp add: bind_exn_def)

lemma cap_loop:
  assumes "quiet_turns m E L s" and "\<not> is_chunk_finalized s" and "\<not> fatal s" and "0 < m"
    and "max_iterations s \<le> iteration_count s + int m"
    and "m = 1 \<or> iteration_count s + int m - 1 < max_iterations s"
  shows "(\<exists>s'. steps (2 * m) E L (CallLlm, s) = Inr (FinalizeChunk, s')
              \<and> llm_calls s' = llm_calls s + m
              \<and> iteration_count s' = iteration_count s + int m
              \<and> current_chunk_idx s' = current_chunk_idx s)
       \<and> (\<forall>j<2 * m. \<exists>sj. steps j E L (CallLlm, s)
                               = Inr (if even j then CallLlm else ExecuteTools, sj)
              \<and> llm_calls sj = llm_calls s + (j + 1) div 2
              \<and> iteration_count sj = iteration_count s + int ((j + 1) div 2)
              \<and> current_chunk_idx sj = current_chunk_idx s)"
  using assms
proof (induction m arbitrary: s)
  case 0
  then show ?case by simp
next
  case (Suc m)
  let ?s1 = "after_call E s"
  from Suc.prems(1) obtain u where u: "execute_tools_node L ?s1 = Inr u"
    and ue: "u_error u = None" and uf: "u_is_chunk_finalized u = None"
    and q: "quiet_turns m E L (apply_update E u ?s1)"
    by (auto split: sum.splits)
  let ?s2 = "apply_update E u ?s1"
  note f1 = after_call_fields[of E s]
  note f2 = quiet_update_fields[OF u ue uf, of E]
  have it2: "iteration_count ?s2 = iteration_count s + 1" using f1 f2 by simp
  have ll2: "llm_calls ?s2 = llm_calls s + 1" using f1 f2 by simp
  have mx2: "max_iterations ?s2 = max_iterations s" using f1 f2 by simp
  have fin2: "\<not> is_chunk_finalized ?s2" using f1 f2 Suc.prems(2) by simp
  have er2: "\<not> fatal ?s2" using f1 f2 Suc.prems(3) by (simp add: fatal_def)
  have ix2: "current_chunk_idx ?s2 = current_chunk_idx s" using f1 f2 by simp
  have st1: "step E L (CallLlm, s) = Inr (ExecuteTools, ?s1)" by (rule step_call)
  have st2: "step E L (ExecuteTools, ?s1) = Inr (is_chunk_done ?s2, ?s2)"
    using u by (rule step_execute)
  have j0: "steps 0 E L (CallLlm, s) = Inr (CallLlm, s)" by simp
  have j1: "steps 1 E L (CallLlm, s) = Inr (ExecuteTools, ?s1)"
    using st1 by (simp add: bind_exn_def)
  show ?case
  proof (cases "m = 0")
    case True
    have "max_iterations s \<le> iteration_count s + 1" using Suc.prems(5) True by simp
    then have fin: "is_chunk_done ?s2 = FinalizeChunk"
      using it2 mx2 by (simp add: is_chunk_done_def)
    have run: "steps 2 E L (CallLlm, s) = Inr (FinalizeChunk, ?s2)"
      using steps_two[OF st1 st2, of 0] fin by simp
    have tr: "\<exists>sj. steps j E L (CallLlm, s)
                     = Inr (if even j then CallLlm else ExecuteTools, sj)
              \<and> llm_calls sj = llm_calls s + (j + 1) div 2
              \<and> iteration_count sj = iteration_count s + int ((j + 1) div 2)
              \<and> current_chunk_idx sj = current_chunk_idx s" if "j < 2" for j
    proof -
      from that have "j = 0 \<or> j = 1" by auto
      then show ?thesis using j0 j1 f1 by auto
    qed
    show ?thesis using True run ll2 it2 ix2 tr by simp
  next
    case False
    then have m: "0 < m" by simp
    from Suc.prems(6) False
    have lt: "iteration_count s + int (Suc m) - 1 < max_iterations s" by simp
    then have "iteration_count ?s2 < max_iterations ?s2" using it2 mx2 m by simp
    then have cont: "is_chunk_done ?s2 = CallLlm"
      using fin2 er2 by (simp add: is_chunk_done_def fatal_def)
    have p5: "max_iterations ?s2 \<le> iteration_count ?s2 + int m"
      using Suc.prems(5) it2 mx2 by simp
    have p6: "m = 1 \<or> iteration_count ?s2 + int m - 1 < max_iterations ?s2"
      using lt it2 mx2 by simp
    note IH = Suc.IH[OF q fin2 er2 m p5 p6]
    have shift: "steps (2 + j) E L (CallLlm, s) = steps j E L (CallLlm, ?s2)" for j
      using steps_two[OF st1 st2, of j] cont by simp
    from IH obtain s' where s': "steps (2 * m) E L (CallLlm, ?s2) = Inr (FinalizeChunk, s')"
      "llm_calls s' = llm_calls ?s2 + m" "iteration_count s' = iteration_count ?s2 + int m"
      "current_chunk_idx s' = current_chunk_idx ?s2" by blast
    have "2 * Suc m = 2 + 2 * m" by simp
    then have run: "steps (2 * Suc m) E L (CallLlm, s) = Inr (FinalizeChunk, s')"
      using shift[of "2 * m"] s'(1) by simp
    have tr: "\<exists>sj. steps j E L (CallLlm, s)
                     = Inr (if even j then CallLlm else ExecuteTools, sj)
              \<and> llm_calls sj = llm_calls s + (j + 1) div 2
              \<and> iteration_count sj = iteration_count s + int ((j + 1) div 2)
              \<and> current_chunk_idx sj = current_chunk_idx s" if "j < 2 * Suc m" for j
    proof (cases "j < 2")
      case True
      then have "j = 0 \<or> j = 1" by auto
      then show ?thesis using j0 j1 f1 by auto
    next
      case False
      then obtain j' where j': "j = 2 + j'" using le_Suc_ex[of 2 j] by auto
      then have "j' < 2 * m" using that by simp
      with IH obtain sj where sj: "steps j' E L (CallLlm, ?s2)
                     = Inr (if even j' then CallLlm else ExecuteTools, sj)"
        "llm_calls sj = llm_calls ?s2 + (j' + 1) div 2"
        "iteration_count sj = iteration_count ?s2 + int ((j' + 1) div 2)"
        "current_chunk_idx sj = current_chunk_idx ?s2" by blast
      have d: "(j + 1) div 2 = 1 + (j' + 1) div 2" using j' by simp
      have "steps j E L (CallLlm, s) = Inr (if even j then CallLlm else ExecuteTools, sj)"
        using shift[of j'] sj(1) j' by simp
      then show ?thesis using sj ll2 it2 ix2 d by auto
    qed
    show ?thesis using run s' ll2 it2 ix2 tr by auto
  qed
qed


lemma steps_front: "step E L c = Inr c1 \<Longrightarrow> steps (Suc j) E L c = steps j E L c1"
  by (simp add: bind_exn_def)

lemma steps_back: "steps j E L c = Inr c1 \<Longrightarrow> steps (Suc j) E L c = step E L c1"
  using steps_add[of j 1 E L c] by (simp add: bind_exn_def split: sum.splits)

lemma quiet_of_not_sole:
  assumes "last_ai_message (messages s1) = Some (Parsed (Obj reply))"
    and "kw reply ''actions'' (Arr []) = Arr actions" and "actions \<noteq> []"
    and "is_sole_update_guidance actions = Inr False"
    and "execute_tools_node L s1 = Inr u"
  shows "u_error u = None \<and> u_is_chunk_finalized u = None"
  using execute_actions_not_sole[OF assms(4), of L s1 u]
    execute_tools_on_actions[OF assms(1,2,3), of L] assms(5)
  by simp

lemma prepare_fields:
  assumes "current_chunk_idx s0 < length (chunks s0)"
  shows "iteration_count (apply_update E (prepare_chunk_node E s0) s0) = 0"
    and "\<not> is_chunk_finalized (apply_update E (prepare_chunk_node E s0) s0)"
    and "error (apply_update E (prepare_chunk_node E s0) s0) = error s0"
    and "llm_calls (apply_update E (prepare_chunk_node E s0) s0) = llm_calls s0"
    and "max_iterations (apply_update E (prepare_chunk_node E s0) s0) = max_iterations s0"
    and "current_chunk_idx (apply_update E (prepare_chunk_node E s0) s0) = current_chunk_idx s0"
    and "chunks (apply_update E (prepare_chunk_node E s0) s0) = chunks s0"
  using assms
  by (simp_all add: apply_update_def prepare_chunk_node_def no_update_def opt_def Let_def)

lemma step_finalize:
  "\<exists>s''. step E L (FinalizeChunk, s') = Inr (PrepareChunk, s'')
         \<and> current_chunk_idx s'' = current_chunk_idx s' + 1 \<and> llm_calls s'' = llm_calls s'"
  by (simp add: step_def apply_update_def finalize_chunk_node_def no_update_def opt_def)

text \<open>
  C4, as the code has it. Let a chunk be prepared in a state without a fatal error, and
  let \<open>n\<close> be \<open>max N 1\<close> for the cap \<open>N = max_iterations\<close>. If in each of the next \<open>n\<close>
  turns the dispatcher returns neither a finalization nor an error (it does so on every
  reply with a non-empty action list that is not one \<^verbatim>\<open>update_guidance\<close> alone,
  lemma \<open>quiet_of_not_sole\<close>), then
  \<^item> preparing the chunk sets \<open>iteration_count\<close> to 0 and goes to the model call;
  \<^item> the next \<open>2 * n\<close> steps alternate between the model call and the dispatcher, and
    after \<open>j\<close> of them both the number of model calls made for the chunk and
    \<open>iteration_count\<close> are \<open>(j + 1) div 2\<close>: one more with each call;
  \<^item> after these \<open>2 * n\<close> steps, and not before, the graph is at \<open>FinalizeChunk\<close> with
    exactly \<open>n\<close> model calls made, and its next step prepares the next chunk.
  The cap is tested after a call, so a cap \<open>N \<le> 0\<close> gives one call, not \<open>N\<close>.
\<close>

theorem iteration_cap:
  assumes "current_chunk_idx s0 < length (chunks s0)" and "\<not> fatal s0"
    and "n = calls_under_cap (max_iterations s0)"
    and "quiet_turns n E L (apply_update E (prepare_chunk_node E s0) s0)"
  shows "\<exists>s s' s''.
           step E L (PrepareChunk, s0) = Inr (CallLlm, s)
         \<and> iteration_count s = 0 \<and> llm_calls s = llm_calls s0
         \<and> (\<forall>j<2 * n. \<exists>sj. steps j E L (CallLlm, s)
                                = Inr (if even j then CallLlm else ExecuteTools, sj)
               \<and> llm_calls sj = llm_calls s0 + (j + 1) div 2
               \<and> iteration_count sj = int ((j + 1) div 2)
               \<and> current_chunk_idx sj = current_chunk_idx s0)
         \<and> steps (2 * n) E L (CallLlm, s) = Inr (FinalizeChunk, s')
         \<and> llm_calls s' = llm_calls s0 + n \<and> iteration_count s' = int n
         \<and> current_chunk_idx s' = current_chunk_idx s0
         \<and> step E L (FinalizeChunk, s') = Inr (PrepareChunk, s'')
         \<and> current_chunk_idx s'' = current_chunk_idx s0 + 1
         \<and> llm_calls s'' = llm_calls s0 + n"
proof -
  let ?s = "apply_update E (prepare_chunk_node E s0) s0"
  note p = prepare_fields[OF assms(1), of E]
  have nf: "\<not> fatal ?s" using assms(2) p(3) by (simp add: fatal_def)
  have "has_more_chunks ?s = CallLlm"
    using nf p(6,7) assms(1) by (simp add: has_more_chunks_def fatal_def)
  then have st: "step E L (PrepareChunk, s0) = Inr (CallLlm, ?s)"
    by (simp add: step_def Let_def)
  have n0: "0 < n" using assms(3) by (simp add: calls_under_cap_def max_def)
  have nn: "int n = max (max_iterations s0) 1"
    using assms(3) by (simp add: calls_under_cap_def max_def)
  have c5: "max_iterations ?s \<le> iteration_count ?s + int n"
    using nn p(1,5) by linarith
  have c6: "n = 1 \<or> iteration_count ?s + int n - 1 < max_iterations ?s"
    using nn p(1,5) by (cases "max_iterations s0 \<le> 1") (simp_all add: max_def)
  from cap_loop[OF assms(4) p(2) nf n0 c5 c6]
  obtain s' where run: "steps (2 * n) E L (CallLlm, ?s) = Inr (FinalizeChunk, s')"
    and l: "llm_calls s' = llm_calls ?s + n"
    and i: "iteration_count s' = iteration_count ?s + int n"
    and x: "current_chunk_idx s' = current_chunk_idx ?s"
    and tr: "\<forall>j<2 * n. \<exists>sj. steps j E L (CallLlm, ?s)
                               = Inr (if even j then CallLlm else ExecuteTools, sj)
              \<and> llm_calls sj = llm_calls ?s + (j + 1) div 2
              \<and> iteration_count sj = iteration_count ?s + int ((j + 1) div 2)
              \<and> current_chunk_idx sj = current_chunk_idx ?s"
    by blast
  from step_finalize[of E L s'] obtain s'' where
    f: "step E L (FinalizeChunk, s') = Inr (PrepareChunk, s'')"
      "current_chunk_idx s'' = current_chunk_idx s' + 1" "llm_calls s'' = llm_calls s'"
    by blast
  have tr': "\<forall>j<2 * n. \<exists>sj. steps j E L (CallLlm, ?s)
                               = Inr (if even j then CallLlm else ExecuteTools, sj)
               \<and> llm_calls sj = llm_calls s0 + (j + 1) div 2
               \<and> iteration_count sj = int ((j + 1) div 2)
               \<and> current_chunk_idx sj = current_chunk_idx s0"
    using tr p(1,4,6) by simp
  show ?thesis
    using st p(1,4) tr' run l i x f p(6) by (intro exI[of _ ?s] exI[of _ s'] exI[of _ s'']) simp
qed

lemma stubborn_quiet:
  "quiet_turns 2 stubborn_env ref_library
     (apply_update stubborn_env (prepare_chunk_node stubborn_env state0) state0)"
  by code_simp

theorem iteration_cap_witness:
  "(case steps 5 stubborn_env ref_library (PrepareChunk, state0) of
      Inl e \<Rightarrow> False
    | Inr (node, s') \<Rightarrow>
        node = FinalizeChunk \<and> llm_calls s' = 2 \<and> iteration_count s' = 2
        \<and> current_chunk_idx s' = 0)
   \<and> (case steps 6 stubborn_env ref_library (PrepareChunk, state0) of
      Inl e \<Rightarrow> False
    | Inr (node, s'') \<Rightarrow> node = PrepareChunk \<and> llm_calls s'' = 2 \<and> current_chunk_idx s'' = 1)
   \<and> max_iterations state0 = 2"
proof -
  have a1: "current_chunk_idx state0 < length (chunks state0)" by (simp add: state0_def)
  have a2: "\<not> fatal state0" by (simp add: fatal_def state0_def)
  have a3: "2 = calls_under_cap (max_iterations state0)"
    by (simp add: calls_under_cap_def state0_def)
  from iteration_cap[OF a1 a2 a3 stubborn_quiet]
  obtain s s' s'' where st: "step stubborn_env ref_library (PrepareChunk, state0) = Inr (CallLlm, s)"
    and run: "steps (2 * 2) stubborn_env ref_library (CallLlm, s) = Inr (FinalizeChunk, s')"
    and f: "llm_calls s' = llm_calls state0 + 2" "iteration_count s' = int 2"
      "current_chunk_idx s' = current_chunk_idx state0"
    and g: "step stubborn_env ref_library (FinalizeChunk, s') = Inr (PrepareChunk, s'')"
      "current_chunk_idx s'' = current_chunk_idx state0 + 1"
      "llm_calls s'' = llm_calls state0 + 2"
    by blast
  have r5: "steps 5 stubborn_env ref_library (PrepareChunk, state0) = Inr (FinalizeChunk, s')"
    using steps_front[OF st, of 4] run by (simp add: eval_nat_numeral)
  have "steps (Suc 5) stubborn_env ref_library (PrepareChunk, state0) = Inr (PrepareChunk, s'')"
    using steps_back[OF r5] g(1) by simp
  then have r6: "steps 6 stubborn_env ref_library (PrepareChunk, state0) = Inr (PrepareChunk, s'')"
    by (simp add: eval_nat_numeral)
  have z: "llm_calls state0 = 0" "current_chunk_idx state0 = 0" "max_iterations state0 = 2"
    by (simp_all add: state0_def)
  show ?thesis unfolding r5 r6 using f g(2,3) z by simp
qed

text \<open>
  The claim as stated fails for the cap 0: the run of \<^verbatim>\<open>extract\<close> on one chunk, with a
  model that never finalizes and a dispatcher that sets no error, calls the model once
  for the chunk before it goes on, not 0 times.
\<close>

theorem iteration_cap_zero_counterexample:
  "(case steps 2 stubborn_env ref_library (ChunkText, initial_state ''some text'' None 0) of
      Inl e \<Rightarrow> False
    | Inr (node, s) \<Rightarrow>
        node = CallLlm \<and> max_iterations s = 0 \<and> llm_calls s = 0 \<and> current_chunk_idx s = 0
        \<and> quiet_turns 1 stubborn_env ref_library s)
   \<and> (case steps 4 stubborn_env ref_library (ChunkText, initial_state ''some text'' None 0) of
      Inl e \<Rightarrow> False
    | Inr (node, s) \<Rightarrow>
        node = FinalizeChunk \<and> llm_calls s = 1 \<and> iteration_count s = 1 \<and> error s = None
        \<and> current_chunk_idx s = 0)
   \<and> (case steps 6 stubborn_env ref_library (ChunkText, initial_state ''some text'' None 0) of
      Inl e \<Rightarrow> False
    | Inr (node, s) \<Rightarrow> node = End \<and> llm_calls s = 1 \<and> current_chunk_idx s = 1)"
  by code_simp

end
